theory Spec2Isabelle
  imports Main "HOL-Library.Multiset"
begin

section \<open>Entity model\<close>

text \<open>
  The business entities of \<^verbatim>\<open>common/entities\<close> and \<^verbatim>\<open>common/enums\<close>. A TypeScript
  \<^verbatim>\<open>number\<close> that holds an identifier, a rating or a table number is an \<open>int\<close>; the growth
  percentage is only ever copied, and is an \<open>int\<close> as well. Several interfaces of the
  source share field names (\<^verbatim>\<open>id\<close>, \<^verbatim>\<open>type\<close>, \<^verbatim>\<open>reviewIds\<close>, \<^verbatim>\<open>reviewsList\<close>,
  \<^verbatim>\<open>monthGrowthPercentage\<close>); each record below keeps the source's name with a prefix that
  tells the interfaces apart: \<open>review_\<close> for \<^verbatim>\<open>IReviewsEntity\<close>, \<open>ind_\<close> for
  \<^verbatim>\<open>IReviewsIndicatorsEntity\<close>, \<open>sind_\<close> for \<^verbatim>\<open>IReviewsIndicatorsSliceEntity\<close> and
  \<open>srep_\<close> for \<^verbatim>\<open>IReviewsReportSliceEntity\<close>.
\<close>

datatype ReviewsTypesEnum = MAUVAIS | NORMAL | BON | EXCELLENT

record IReviewsEntity =
  review_id :: int
  message :: string
  date :: string
  toUserId :: int
  rating :: int
  tableNumber :: int

record IReviewsIndicatorsEntity =
  ind_reviewsList :: "IReviewsEntity list"
  ind_type :: ReviewsTypesEnum
  ind_monthGrowthPercentage :: int

record IReviewsReportsEntity =
  reviewsList :: "IReviewsEntity list"
  reviewsIndicatorList :: "IReviewsIndicatorsEntity list"

section \<open>Flat record model\<close>

record IReviewsReportSliceEntity =
  srep_id :: int
  srep_reviewIds :: "int list"
  srep_reviewsIndicatorIds :: "int list"

record IReviewsIndicatorsSliceEntity =
  sind_id :: int
  sind_reviewIds :: "int list"
  sind_type :: ReviewsTypesEnum
  sind_monthGrowthPercentage :: int

record ParsedReviewsReportData =
  report :: IReviewsReportSliceEntity
  reviews :: "IReviewsEntity list"
  indicators :: "IReviewsIndicatorsSliceEntity list"

section \<open>The normalizer\<close>

text \<open>
  \<^verbatim>\<open>normalizeReviewsReportEntity\<close> of the transformer file. \<^verbatim>\<open>xs.map((x, index) => ...)\<close>
  is a map over \<open>enumerate 0 xs\<close>, the index converted to the \<open>int\<close> the identifier
  fields hold; the spread copy \<^verbatim>\<open>{ ...review }\<close> is the review itself.
\<close>

definition normalizeReviewsReportEntity :: "IReviewsReportsEntity \<Rightarrow> ParsedReviewsReportData" where
  "normalizeReviewsReportEntity raw =
     (let reportEntity =
            \<lparr> srep_id = 0,
              srep_reviewIds = map (\<lambda>review. review_id review) (reviewsList raw),
              srep_reviewsIndicatorIds =
                map (\<lambda>(index, _). int index) (enumerate 0 (reviewsIndicatorList raw)) \<rparr>;
          reviewsEntities = map (\<lambda>review. review) (reviewsList raw);
          indicatorsEntities =
            map (\<lambda>(index, indicator).
                   \<lparr> sind_id = int index,
                     sind_reviewIds = map (\<lambda>review. review_id review) (ind_reviewsList indicator),
                     sind_type = ind_type indicator,
                     sind_monthGrowthPercentage = ind_monthGrowthPercentage indicator \<rparr>)
                (enumerate 0 (reviewsIndicatorList raw))
      in \<lparr> report = reportEntity, reviews = reviewsEntities, indicators = indicatorsEntities \<rparr>)"

section \<open>JavaScript objects used as dictionaries\<close>

text \<open>
  The \<^verbatim>\<open>entities\<close> field of a slice is a JavaScript object,
  \<^verbatim>\<open>Record<number, T | undefined>\<close>. It is modelled by the list of its own properties in
  creation order; a value \<^verbatim>\<open>undefined\<close> is \<open>None\<close>. The own properties of an object are
  enumerated with the keys that are array indices (the integers from 0 to \<open>2^32 - 2\<close>)
  first, in ascending numeric order, and then the remaining keys in creation order:
  \<open>own_properties\<close>. \<^verbatim>\<open>Object.values\<close> returns the values in that order.
\<close>

type_synonym 'a Dictionary = "(int \<times> 'a option) list"

definition has_key :: "int \<Rightarrow> 'a Dictionary \<Rightarrow> bool" where
  "has_key k d = (k \<in> set (map fst d))"

definition obj_get :: "'a Dictionary \<Rightarrow> int \<Rightarrow> 'a option" where
  "obj_get d k = (case map_of d k of None \<Rightarrow> None | Some v \<Rightarrow> v)"

fun obj_set :: "int \<Rightarrow> 'a option \<Rightarrow> 'a Dictionary \<Rightarrow> 'a Dictionary" where
  "obj_set k v [] = [(k, v)]"
| "obj_set k v ((k', v') # d) = (if k = k' then (k, v) # d else (k', v') # obj_set k v d)"

definition obj_delete :: "int \<Rightarrow> 'a Dictionary \<Rightarrow> 'a Dictionary" where
  "obj_delete k d = filter (\<lambda>p. fst p \<noteq> k) d"

definition is_array_index :: "int \<Rightarrow> bool" where
  "is_array_index k = (0 \<le> k \<and> k < 4294967295)"

definition own_properties :: "'a Dictionary \<Rightarrow> (int \<times> 'a option) list" where
  "own_properties d =
     sort_key fst (filter (\<lambda>p. is_array_index (fst p)) d)
     @ filter (\<lambda>p. \<not> is_array_index (fst p)) d"

definition Object_values :: "'a Dictionary \<Rightarrow> 'a option list" where
  "Object_values d = map snd (own_properties d)"

section \<open>The store: three entity-adapter slices\<close>

text \<open>
  Each slice is built by \<^verbatim>\<open>createEntityAdapter\<close> of Redux Toolkit with
  \<^verbatim>\<open>selectId: (e) => e.id\<close> and no \<^verbatim>\<open>sortComparer\<close>, so its reducers are those of the
  library's unsorted state adapter. The library is a dependency of the repository, not
  part of its sources; its reducers are transcribed here from the library's own code:
  \<^verbatim>\<open>addOne\<close> returns at once when the key is already \<^verbatim>\<open>in state.entities\<close> and
  otherwise pushes the key on \<^verbatim>\<open>ids\<close> and stores the entity; \<^verbatim>\<open>addMany\<close> runs \<^verbatim>\<open>addOne\<close> over the array; \<^verbatim>\<open>removeOne\<close> is
  \<^verbatim>\<open>removeMany\<close> of one key, which deletes the keys that are present and, if any was,
  filters \<^verbatim>\<open>ids\<close> down to the keys still present; \<^verbatim>\<open>removeAll\<close> resets both fields;
  \<^verbatim>\<open>updateOne\<close> ignores an absent key and otherwise stores
  \<^verbatim>\<open>Object.assign({}, original, changes)\<close> under the key. The changes modelled carry
  the fields other than the identifier, so an update never moves an entity to a new key.
  The slice \<^verbatim>\<open>state.reviews\<close> of the root state is the field \<open>reviewsState\<close>.
\<close>

record 'a EntityState =
  ids :: "int list"
  entities :: "'a Dictionary"

definition getInitialState :: "'a EntityState" where
  "getInitialState = \<lparr> ids = [], entities = [] \<rparr>"

definition addOne :: "('a \<Rightarrow> int) \<Rightarrow> 'a \<Rightarrow> 'a EntityState \<Rightarrow> 'a EntityState" where
  "addOne selectId entity state =
     (let key = selectId entity
      in if has_key key (entities state) then state
         else state\<lparr> ids := ids state @ [key],
                     entities := obj_set key (Some entity) (entities state) \<rparr>)"

definition addMany :: "('a \<Rightarrow> int) \<Rightarrow> 'a list \<Rightarrow> 'a EntityState \<Rightarrow> 'a EntityState" where
  "addMany selectId newEntities state = foldl (\<lambda>st entity. addOne selectId entity st) state newEntities"

definition removeMany :: "int list \<Rightarrow> 'a EntityState \<Rightarrow> 'a EntityState" where
  "removeMany keys state =
     (let (ents, didMutate) =
            foldl (\<lambda>(d, m) key. if has_key key d then (obj_delete key d, True) else (d, m))
                  (entities state, False) keys
      in if didMutate
         then state\<lparr> ids := filter (\<lambda>i. has_key i ents) (ids state), entities := ents \<rparr>
         else state)"

definition removeOne :: "int \<Rightarrow> 'a EntityState \<Rightarrow> 'a EntityState" where
  "removeOne key state = removeMany [key] state"

definition removeAll :: "'a EntityState \<Rightarrow> 'a EntityState" where
  "removeAll state = state\<lparr> ids := [], entities := [] \<rparr>"

definition updateOne :: "('a \<Rightarrow> 'c \<Rightarrow> 'a) \<Rightarrow> int \<times> 'c \<Rightarrow> 'a EntityState \<Rightarrow> 'a EntityState" where
  "updateOne assign update state =
     (if \<not> has_key (fst update) (entities state) then state
      else case obj_get (entities state) (fst update) of
             None \<Rightarrow> state
           | Some original \<Rightarrow>
               state\<lparr> entities :=
                 obj_set (fst update) (Some (assign original (snd update))) (entities state) \<rparr>)"

text \<open>The \<^verbatim>\<open>Partial<T>\<close> payloads of the three update reducers, and \<^verbatim>\<open>Object.assign\<close> on them.\<close>

record ReviewChanges =
  ch_message :: "string option"
  ch_date :: "string option"
  ch_toUserId :: "int option"
  ch_rating :: "int option"
  ch_tableNumber :: "int option"

record IndicatorChanges =
  ch_reviewIds :: "int list option"
  ch_type :: "ReviewsTypesEnum option"
  ch_monthGrowthPercentage :: "int option"

record ReportChanges =
  ch_srep_reviewIds :: "int list option"
  ch_srep_reviewsIndicatorIds :: "int list option"

definition assign_review :: "IReviewsEntity \<Rightarrow> ReviewChanges \<Rightarrow> IReviewsEntity" where
  "assign_review r c =
     r\<lparr> message := (case ch_message c of None \<Rightarrow> message r | Some v \<Rightarrow> v),
        date := (case ch_date c of None \<Rightarrow> date r | Some v \<Rightarrow> v),
        toUserId := (case ch_toUserId c of None \<Rightarrow> toUserId r | Some v \<Rightarrow> v),
        rating := (case ch_rating c of None \<Rightarrow> rating r | Some v \<Rightarrow> v),
        tableNumber := (case ch_tableNumber c of None \<Rightarrow> tableNumber r | Some v \<Rightarrow> v) \<rparr>"

definition assign_indicator ::
  "IReviewsIndicatorsSliceEntity \<Rightarrow> IndicatorChanges \<Rightarrow> IReviewsIndicatorsSliceEntity" where
  "assign_indicator r c =
     r\<lparr> sind_reviewIds := (case ch_reviewIds c of None \<Rightarrow> sind_reviewIds r | Some v \<Rightarrow> v),
        sind_type := (case ch_type c of None \<Rightarrow> sind_type r | Some v \<Rightarrow> v),
        sind_monthGrowthPercentage :=
          (case ch_monthGrowthPercentage c of None \<Rightarrow> sind_monthGrowthPercentage r | Some v \<Rightarrow> v) \<rparr>"

definition assign_report ::
  "IReviewsReportSliceEntity \<Rightarrow> ReportChanges \<Rightarrow> IReviewsReportSliceEntity" where
  "assign_report r c =
     r\<lparr> srep_reviewIds := (case ch_srep_reviewIds c of None \<Rightarrow> srep_reviewIds r | Some v \<Rightarrow> v),
        srep_reviewsIndicatorIds :=
          (case ch_srep_reviewsIndicatorIds c of None \<Rightarrow> srep_reviewsIndicatorIds r | Some v \<Rightarrow> v) \<rparr>"

record RootState =
  reviewsState :: "IReviewsEntity EntityState"
  reviewsIndicators :: "IReviewsIndicatorsSliceEntity EntityState"
  reviewsReport :: "IReviewsReportSliceEntity EntityState"

definition initialRootState :: RootState where
  "initialRootState =
     \<lparr> reviewsState = getInitialState, reviewsIndicators = getInitialState,
       reviewsReport = getInitialState \<rparr>"

text \<open>The action creators of \<^verbatim>\<open>reviewsSlice\<close>, \<^verbatim>\<open>reviewsIndicatorsSlice\<close> and \<^verbatim>\<open>reviewsReportSlice\<close>.\<close>

datatype Action =
    addReview IReviewsEntity
  | addReviews "IReviewsEntity list"
  | updateReview int ReviewChanges
  | removeReview int
  | clearReviews
  | addReviewsIndicator IReviewsIndicatorsSliceEntity
  | addReviewsIndicators "IReviewsIndicatorsSliceEntity list"
  | updateReviewsIndicator int IndicatorChanges
  | removeReviewsIndicator int
  | clearIndicators
  | addReviewReport IReviewsReportSliceEntity
  | addReviewsReports "IReviewsReportSliceEntity list"
  | updateReviewReport int ReportChanges
  | removeReviewReport int
  | clearReports

fun dispatch :: "RootState \<Rightarrow> Action \<Rightarrow> RootState" where
  "dispatch s (addReview r) = s\<lparr> reviewsState := addOne review_id r (reviewsState s) \<rparr>"
| "dispatch s (addReviews rs) = s\<lparr> reviewsState := addMany review_id rs (reviewsState s) \<rparr>"
| "dispatch s (updateReview k c) =
     s\<lparr> reviewsState := updateOne assign_review (k, c) (reviewsState s) \<rparr>"
| "dispatch s (removeReview k) = s\<lparr> reviewsState := removeOne k (reviewsState s) \<rparr>"
| "dispatch s clearReviews = s\<lparr> reviewsState := removeAll (reviewsState s) \<rparr>"
| "dispatch s (addReviewsIndicator i) =
     s\<lparr> reviewsIndicators := addOne sind_id i (reviewsIndicators s) \<rparr>"
| "dispatch s (addReviewsIndicators is) =
     s\<lparr> reviewsIndicators := addMany sind_id is (reviewsIndicators s) \<rparr>"
| "dispatch s (updateReviewsIndicator k c) =
     s\<lparr> reviewsIndicators := updateOne assign_indicator (k, c) (reviewsIndicators s) \<rparr>"
| "dispatch s (removeReviewsIndicator k) =
     s\<lparr> reviewsIndicators := removeOne k (reviewsIndicators s) \<rparr>"
| "dispatch s clearIndicators = s\<lparr> reviewsIndicators := removeAll (reviewsIndicators s) \<rparr>"
| "dispatch s (addReviewReport r) = s\<lparr> reviewsReport := addOne srep_id r (reviewsReport s) \<rparr>"
| "dispatch s (addReviewsReports rs) =
     s\<lparr> reviewsReport := addMany srep_id rs (reviewsReport s) \<rparr>"
| "dispatch s (updateReviewReport k c) =
     s\<lparr> reviewsReport := updateOne assign_report (k, c) (reviewsReport s) \<rparr>"
| "dispatch s (removeReviewReport k) = s\<lparr> reviewsReport := removeOne k (reviewsReport s) \<rparr>"
| "dispatch s clearReports = s\<lparr> reviewsReport := removeAll (reviewsReport s) \<rparr>"

text \<open>
  The synchronous part of \<^verbatim>\<open>RgetAllReviews\<close> in \<^verbatim>\<open>useReviewsRepository\<close>, on the branch
  where the response carries a report: normalize the report, then dispatch the three add
  actions in the source's order (reviews, indicators, report).
\<close>

definition RgetAllReviews :: "IReviewsReportsEntity \<Rightarrow> RootState \<Rightarrow> RootState" where
  "RgetAllReviews response_report s =
     (let parsed = normalizeReviewsReportEntity response_report
      in foldl dispatch s
           [addReviews (reviews parsed),
            addReviewsIndicators (indicators parsed),
            addReviewReport (report parsed)])"

section \<open>The selectors\<close>

text \<open>
  \<^verbatim>\<open>createSelector\<close> caches the last result of its result function; the value it returns
  is the result function applied to the values of the input selectors, which is what the
  definitions below compute; the result functions are \<open>denormalizeReviews\<close>,
  \<open>denormalizeReviewsIndicators\<close> and \<open>denormalizeReviewsReports\<close>, and the object
  literals built inside their \<^verbatim>\<open>map\<close> callbacks are \<open>denormalizeIndicator\<close> and
  \<open>denormalizeReport\<close>. \<^verbatim>\<open>xs.filter(Boolean)\<close> on a list of objects and
  \<^verbatim>\<open>undefined\<close> keeps the objects: \<open>filter_Boolean\<close>. \<^verbatim>\<open>xs.find((_, index) => index === id)\<close>
  is \<open>find_at_index\<close>.
\<close>

definition filter_Boolean :: "'a option list \<Rightarrow> 'a list" where
  "filter_Boolean xs = map the (filter (\<lambda>x. x \<noteq> None) xs)"

definition find_at_index :: "'a list \<Rightarrow> int \<Rightarrow> 'a option" where
  "find_at_index xs k = map_option snd (find (\<lambda>(index, _). int index = k) (enumerate 0 xs))"

text \<open>
  Two expressions occur several times in the selectors and are named once here:
  \<^verbatim>\<open>Object.values(dict).filter((x) => x !== undefined)\<close> is \<open>defined_values\<close>, and the join
  \<^verbatim>\<open>ids.map((id) => denormalizedReviews.find((review) => review.id === id)).filter(Boolean)\<close>
  is \<open>join_reviews\<close>.
\<close>

definition defined_values :: "'a Dictionary \<Rightarrow> 'a list" where
  "defined_values d = map the (filter (\<lambda>x. x \<noteq> None) (Object_values d))"

definition join_reviews :: "IReviewsEntity list \<Rightarrow> int list \<Rightarrow> IReviewsEntity list" where
  "join_reviews denormalizedReviews reviewIds =
     filter_Boolean
       (map (\<lambda>i. find (\<lambda>review. review_id review = i) denormalizedReviews) reviewIds)"

definition selectReviewsEntities :: "RootState \<Rightarrow> IReviewsEntity Dictionary" where
  "selectReviewsEntities state = entities (reviewsState state)"

definition selectReviewsIndicatorsEntities ::
  "RootState \<Rightarrow> IReviewsIndicatorsSliceEntity Dictionary" where
  "selectReviewsIndicatorsEntities state = entities (reviewsIndicators state)"

definition selectReviewsReportEntities :: "RootState \<Rightarrow> IReviewsReportSliceEntity Dictionary" where
  "selectReviewsReportEntities state = entities (reviewsReport state)"

definition denormalizeReviews :: "IReviewsEntity Dictionary \<Rightarrow> IReviewsEntity list" where
  "denormalizeReviews reviewsEntities = defined_values reviewsEntities"

definition selectDenormalizedReviews :: "RootState \<Rightarrow> IReviewsEntity list" where
  "selectDenormalizedReviews state = denormalizeReviews (selectReviewsEntities state)"

definition denormalizeIndicator ::
  "IReviewsEntity list \<Rightarrow> IReviewsIndicatorsSliceEntity \<Rightarrow> IReviewsIndicatorsEntity" where
  "denormalizeIndicator denormalizedReviews indicator =
     \<lparr> ind_reviewsList = join_reviews denormalizedReviews (sind_reviewIds indicator),
       ind_type = sind_type indicator,
       ind_monthGrowthPercentage = sind_monthGrowthPercentage indicator \<rparr>"

definition denormalizeReviewsIndicators ::
  "IReviewsIndicatorsSliceEntity Dictionary \<Rightarrow> IReviewsEntity list \<Rightarrow> IReviewsIndicatorsEntity list" where
  "denormalizeReviewsIndicators reviewsIndicatorsEntities denormalizedReviews =
     map (denormalizeIndicator denormalizedReviews) (defined_values reviewsIndicatorsEntities)"

definition selectDenormalizedReviewsIndicators :: "RootState \<Rightarrow> IReviewsIndicatorsEntity list" where
  "selectDenormalizedReviewsIndicators state =
     denormalizeReviewsIndicators (selectReviewsIndicatorsEntities state)
                                  (selectDenormalizedReviews state)"

definition denormalizeReport ::
  "IReviewsEntity list \<Rightarrow> IReviewsIndicatorsEntity list \<Rightarrow> IReviewsReportSliceEntity
     \<Rightarrow> IReviewsReportsEntity" where
  "denormalizeReport denormalizedReviews denormalizedIndicators rep =
     \<lparr> reviewsList = join_reviews denormalizedReviews (srep_reviewIds rep),
       reviewsIndicatorList =
         filter_Boolean
           (map (\<lambda>i. find_at_index denormalizedIndicators i) (srep_reviewsIndicatorIds rep)) \<rparr>"

definition denormalizeReviewsReports ::
  "IReviewsReportSliceEntity Dictionary \<Rightarrow> IReviewsEntity list \<Rightarrow> IReviewsIndicatorsEntity list
     \<Rightarrow> IReviewsReportsEntity list" where
  "denormalizeReviewsReports reviewsReportsEntities denormalizedReviews denormalizedIndicators =
     map (denormalizeReport denormalizedReviews denormalizedIndicators)
         (defined_values reviewsReportsEntities)"

definition selectDenormalizedReviewsReports :: "RootState \<Rightarrow> IReviewsReportsEntity list" where
  "selectDenormalizedReviewsReports state =
     denormalizeReviewsReports (selectReviewsReportEntities state)
                               (selectDenormalizedReviews state)
                               (selectDenormalizedReviewsIndicators state)"

section \<open>Vocabulary of the properties\<close>

text \<open>
  A dictionary produced by the adapter's reducers alone has pairwise distinct keys and
  stores under each key an entity whose identifier is that key.
\<close>

definition wf_dict :: "('a \<Rightarrow> int) \<Rightarrow> 'a Dictionary \<Rightarrow> bool" where
  "wf_dict selectId d =
     (distinct (map fst d) \<and> list_all (\<lambda>p. case snd p of None \<Rightarrow> False | Some e \<Rightarrow> selectId e = fst p) d)"

text \<open>
  The reviews embedded in the indicators of a nested report, and the consistency a
  round trip asks of them: each embedded review is one of the top-level reviews.
\<close>

definition embedded_reviews :: "IReviewsReportsEntity \<Rightarrow> IReviewsEntity list" where
  "embedded_reviews R = concat (map ind_reviewsList (reviewsIndicatorList R))"

definition reviews_consistent :: "IReviewsReportsEntity \<Rightarrow> bool" where
  "reviews_consistent R = list_all (\<lambda>r. r \<in> set (reviewsList R)) (embedded_reviews R)"

text \<open>
  The payload \<^verbatim>\<open>{ message: m }\<close> of an update, and its effect on one review of a view:
  the review with the identifier i gets the message m, every other review is untouched.
\<close>

definition message_change :: "string \<Rightarrow> ReviewChanges" where
  "message_change m =
     \<lparr> ch_message = Some m, ch_date = None, ch_toUserId = None, ch_rating = None,
       ch_tableNumber = None \<rparr>"

definition with_message :: "int \<Rightarrow> string \<Rightarrow> IReviewsEntity \<Rightarrow> IReviewsEntity" where
  "with_message i m r = (if review_id r = i then r\<lparr> message := m \<rparr> else r)"

section \<open>Concrete reports and stores\<close>

text \<open>The report of the transformer's own example: two reviews, one indicator for each.\<close>

definition example_report :: IReviewsReportsEntity where
  "example_report =
     \<lparr> reviewsList =
         [\<lparr> review_id = 1, message = ''Super'', date = ''2024-01-15'', toUserId = 7, rating = 5, tableNumber = 3 \<rparr>,
          \<lparr> review_id = 2, message = ''Bien'', date = ''2024-01-16'', toUserId = 7, rating = 4, tableNumber = 4 \<rparr>],
       reviewsIndicatorList =
         [\<lparr> ind_reviewsList =
              [\<lparr> review_id = 1, message = ''Super'', date = ''2024-01-15'', toUserId = 7, rating = 5, tableNumber = 3 \<rparr>],
            ind_type = EXCELLENT, ind_monthGrowthPercentage = 15 \<rparr>,
          \<lparr> ind_reviewsList =
              [\<lparr> review_id = 2, message = ''Bien'', date = ''2024-01-16'', toUserId = 7, rating = 4, tableNumber = 4 \<rparr>],
            ind_type = BON, ind_monthGrowthPercentage = 8 \<rparr>] \<rparr>"

text \<open>Two reviews with the identifier 1 and one with the identifier 2.\<close>

definition review_super :: IReviewsEntity where
  "review_super = \<lparr> review_id = 1, message = ''Super'', date = ''2024-01-15'', toUserId = 7,
               rating = 5, tableNumber = 3 \<rparr>"

definition review_moyen :: IReviewsEntity where
  "review_moyen = \<lparr> review_id = 1, message = ''Moyen'', date = ''2024-02-01'', toUserId = 7,
               rating = 3, tableNumber = 9 \<rparr>"

definition review_bien :: IReviewsEntity where
  "review_bien = \<lparr> review_id = 2, message = ''Bien'', date = ''2024-01-16'', toUserId = 7,
                 rating = 4, tableNumber = 4 \<rparr>"

text \<open>
  A report whose top-level list holds two different reviews under the identifier 1; its
  indicator embeds the second of them.
\<close>

definition duplicate_id_report :: IReviewsReportsEntity where
  "duplicate_id_report =
     \<lparr> reviewsList = [review_super, review_moyen],
       reviewsIndicatorList =
         [\<lparr> ind_reviewsList = [review_moyen], ind_type = NORMAL,
            ind_monthGrowthPercentage = 8 \<rparr>] \<rparr>"

text \<open>Two stores with the same reviews; the second holds an indicator and a report as well.\<close>

definition store_reviews_only :: RootState where
  "store_reviews_only =
     dispatch initialRootState
       (addReview \<lparr> review_id = 1, message = ''Super'', date = ''2024-01-15'', toUserId = 7,
                    rating = 5, tableNumber = 3 \<rparr>)"

definition store_full :: RootState where
  "store_full =
     foldl dispatch store_reviews_only
       [addReviewsIndicator \<lparr> sind_id = 0, sind_reviewIds = [1], sind_type = EXCELLENT,
                              sind_monthGrowthPercentage = 15 \<rparr>,
        addReviewReport \<lparr> srep_id = 0, srep_reviewIds = [1], srep_reviewsIndicatorIds = [0] \<rparr>]"

definition store_report_changed :: RootState where
  "store_report_changed =
     dispatch store_full
       (updateReviewReport 0 \<lparr> ch_srep_reviewIds = Some [], ch_srep_reviewsIndicatorIds = None \<rparr>)"

text \<open>
  A report with two top-level reviews and one indicator that embeds the first of them
  twice: two embedded reviews, one distinct embedded identifier.
\<close>

definition twice_embedded_report :: IReviewsReportsEntity where
  "twice_embedded_report =
     \<lparr> reviewsList = [review_super, review_bien],
       reviewsIndicatorList =
         [\<lparr> ind_reviewsList = [review_super, review_super], ind_type = EXCELLENT,
            ind_monthGrowthPercentage = 15 \<rparr>] \<rparr>"

text \<open>A store into which review 2 was inserted before review 1.\<close>

definition store_2_then_1 :: RootState where
  "store_2_then_1 = foldl dispatch initialRootState [addReview review_bien, addReview review_super]"

text \<open>
  The store of the committed example report with the indicator-id list of its report
  record replaced by [0], and by [1]; the indicator record the example stores under the
  identifier 1, and the indicator view derived from it.
\<close>

definition store_report_ids_0 :: RootState where
  "store_report_ids_0 =
     dispatch (RgetAllReviews example_report initialRootState)
       (updateReviewReport 0 \<lparr> ch_srep_reviewIds = None, ch_srep_reviewsIndicatorIds = Some [0] \<rparr>)"

definition store_report_ids_1 :: RootState where
  "store_report_ids_1 =
     dispatch (RgetAllReviews example_report initialRootState)
       (updateReviewReport 0 \<lparr> ch_srep_reviewIds = None, ch_srep_reviewsIndicatorIds = Some [1] \<rparr>)"

definition example_bon_record :: IReviewsIndicatorsSliceEntity where
  "example_bon_record =
     \<lparr> sind_id = 1, sind_reviewIds = [2], sind_type = BON, sind_monthGrowthPercentage = 8 \<rparr>"

definition example_bon_view :: IReviewsIndicatorsEntity where
  "example_bon_view =
     \<lparr> ind_reviewsList =
         [\<lparr> review_id = 2, message = ''Bien'', date = ''2024-01-16'', toUserId = 7,
            rating = 4, tableNumber = 4 \<rparr>],
       ind_type = BON, ind_monthGrowthPercentage = 8 \<rparr>"

section \<open>The normalizer's output\<close>

lemma map_index_enumerate:
  "map (\<lambda>(index, _). int index) (enumerate 0 xs) = map int [0..<length xs]"
  by (rule nth_equalityI) (simp_all add: nth_enumerate_eq)

text \<open>
  C2. For every nested report the normalizer returns a flat report record with identifier
  0, whose review-id list is the identifiers of the top-level review list in order and whose
  indicator-id list is 0, 1, ..., n - 1 for n indicators; and the indicator record at each
  position i has identifier i, the category tag and growth percentage of the i-th
  indicator, and the identifiers of its embedded reviews in order.
\<close>

theorem normalize_contract:
  "srep_id (report (normalizeReviewsReportEntity raw)) = 0 \<and>
   srep_reviewIds (report (normalizeReviewsReportEntity raw)) = map review_id (reviewsList raw) \<and>
   srep_reviewsIndicatorIds (report (normalizeReviewsReportEntity raw))
     = map int [0..<length (reviewsIndicatorList raw)] \<and>
   length (indicators (normalizeReviewsReportEntity raw)) = length (reviewsIndicatorList raw) \<and>
   (\<forall>i < length (reviewsIndicatorList raw).
      indicators (normalizeReviewsReportEntity raw) ! i =
        \<lparr> sind_id = int i,
          sind_reviewIds = map review_id (ind_reviewsList (reviewsIndicatorList raw ! i)),
          sind_type = ind_type (reviewsIndicatorList raw ! i),
          sind_monthGrowthPercentage = ind_monthGrowthPercentage (reviewsIndicatorList raw ! i) \<rparr>)"
  by (simp add: normalizeReviewsReportEntity_def map_index_enumerate nth_enumerate_eq)

theorem normalize_contract_witness:
  "(1::nat) < length (reviewsIndicatorList example_report) \<and>
   srep_id (report (normalizeReviewsReportEntity example_report)) = 0 \<and>
   srep_reviewIds (report (normalizeReviewsReportEntity example_report)) = [1, 2] \<and>
   srep_reviewsIndicatorIds (report (normalizeReviewsReportEntity example_report)) = [0, 1] \<and>
   indicators (normalizeReviewsReportEntity example_report) ! 1 =
     \<lparr> sind_id = 1, sind_reviewIds = [2], sind_type = BON, sind_monthGrowthPercentage = 8 \<rparr>"
proof -
  have len: "(1::nat) < length (reviewsIndicatorList example_report)"
    by (simp add: example_report_def)
  have upt: "map int [0..<length (reviewsIndicatorList example_report)] = [0, 1]"
    by (simp add: example_report_def upt_rec)
  from normalize_contract [of example_report] len upt show ?thesis
    by (simp add: example_report_def)
qed

section \<open>Dictionaries and the adapter's reducers\<close>

lemma obj_set_fresh: "\<not> has_key k d \<Longrightarrow> obj_set k v d = d @ [(k, v)]"
  by (induction d) (auto simp: has_key_def)

lemma addMany_Nil [simp]: "addMany f [] st = st"
  by (simp add: addMany_def)

lemma addMany_Cons [simp]: "addMany f (e # es) st = addMany f es (addOne f e st)"
  by (simp add: addMany_def)

lemma addOne_fresh:
  "\<not> has_key (f e) (entities st) \<Longrightarrow>
     entities (addOne f e st) = entities st @ [(f e, Some e)] \<and> ids (addOne f e st) = ids st @ [f e]"
  by (simp add: addOne_def Let_def obj_set_fresh)

lemma addOne_present: "has_key (f e) (entities st) \<Longrightarrow> addOne f e st = st"
  by (simp add: addOne_def Let_def)

lemma addMany_fresh:
  "distinct (map f es) \<Longrightarrow> \<forall>e\<in>set es. \<not> has_key (f e) (entities st) \<Longrightarrow>
     entities (addMany f es st) = entities st @ map (\<lambda>e. (f e, Some e)) es \<and>
     ids (addMany f es st) = ids st @ map f es"
proof (induction es arbitrary: st)
  case Nil
  then show ?case by simp
next
  case (Cons e es)
  have fresh: "\<not> has_key (f e) (entities st)" using Cons.prems by simp
  have step: "entities (addOne f e st) = entities st @ [(f e, Some e)]"
    and step_ids: "ids (addOne f e st) = ids st @ [f e]"
    using addOne_fresh [of f e st] fresh by simp_all
  have "\<forall>x\<in>set es. \<not> has_key (f x) (entities (addOne f e st))"
    using Cons.prems by (auto simp: step has_key_def rev_image_eqI)
  moreover have "distinct (map f es)" using Cons.prems by simp
  ultimately show ?case using Cons.IH [of "addOne f e st"] by (simp add: step step_ids)
qed

lemma filter_split_sorted:
  "sorted (map fst d) \<Longrightarrow> \<forall>p\<in>set d. (0::int) \<le> fst p \<Longrightarrow>
     filter (\<lambda>p. is_array_index (fst p)) d @ filter (\<lambda>p. \<not> is_array_index (fst p)) d = d"
proof (induction d)
  case Nil
  then show ?case by simp
next
  case (Cons p d)
  show ?case
  proof (cases "is_array_index (fst p)")
    case True
    then show ?thesis using Cons by simp
  next
    case False
    have "\<forall>q\<in>set d. \<not> is_array_index (fst q)"
      using False Cons.prems by (auto simp: is_array_index_def)
    then have "filter (\<lambda>p. is_array_index (fst p)) d = []"
      and "filter (\<lambda>p. \<not> is_array_index (fst p)) d = d"
      by (simp_all add: filter_empty_conv filter_id_conv)
    then show ?thesis using False by simp
  qed
qed

lemma own_properties_sorted:
  assumes "sorted (map fst d)" and "\<forall>p\<in>set d. (0::int) \<le> fst p"
  shows "own_properties d = d"
proof -
  have "sorted (map fst (filter (\<lambda>p. is_array_index (fst p)) d))"
    using assms(1) by (simp add: sorted_filter)
  then have "sort_key fst (filter (\<lambda>p. is_array_index (fst p)) d)
               = filter (\<lambda>p. is_array_index (fst p)) d"
    by (rule sort_key_id_if_sorted)
  then show ?thesis
    using filter_split_sorted [OF assms] by (simp add: own_properties_def)
qed

lemma mset_own_properties: "mset (own_properties d) = mset d"
  by (simp add: own_properties_def)

lemma set_own_properties: "set (own_properties d) = set d"
  using mset_own_properties [of d] by (metis set_mset_mset)

lemma distinct_keys_own_properties:
  "distinct (map fst (own_properties d)) = distinct (map fst d)"
proof -
  have "mset (map fst (own_properties d)) = mset (map fst d)"
    by (simp add: mset_own_properties)
  then show ?thesis by (rule mset_eq_imp_distinct_iff)
qed

lemma find_unique:
  "distinct (map f xs) \<Longrightarrow> x \<in> set xs \<Longrightarrow> find (\<lambda>y. f y = f x) xs = Some x"
  by (induction xs) (auto simp: rev_image_eqI)

lemma filter_Boolean_map:
  "filter_Boolean (map f xs) = map (\<lambda>x. the (f x)) (filter (\<lambda>x. f x \<noteq> None) xs)"
  by (simp add: filter_Boolean_def filter_map comp_def)

lemma filter_Boolean_all_Some:
  "\<forall>x\<in>set xs. f x = Some (g x) \<Longrightarrow> filter_Boolean (map f xs) = map g xs"
  by (induction xs) (simp_all add: filter_Boolean_def)

lemma find_enumerate:
  "find (\<lambda>(index, _). int index = k) (enumerate n xs) =
     (if int n \<le> k \<and> k < int (n + length xs) then Some (nat k, xs ! (nat k - n)) else None)"
proof (induction xs arbitrary: n)
  case Nil
  then show ?case by simp
next
  case (Cons x xs)
  show ?case
  proof (cases "int n = k")
    case True
    then show ?thesis by auto
  next
    case False
    have "nat k - n = Suc (nat k - Suc n)" if "int n < k"
      using that by linarith
    then show ?thesis using False Cons.IH [of "Suc n"] by auto
  qed
qed

lemma find_at_index_eq:
  "find_at_index xs k = (if 0 \<le> k \<and> k < int (length xs) then Some (xs ! nat k) else None)"
  by (simp add: find_at_index_def find_enumerate)

lemma wf_dict_own_properties: "wf_dict f d \<Longrightarrow> wf_dict f (own_properties d)"
  by (simp add: wf_dict_def distinct_keys_own_properties list_all_iff set_own_properties)

lemma wf_dict_stored:
  "wf_dict f d \<Longrightarrow> map the (filter (\<lambda>v. v \<noteq> None) (map snd d)) = map (\<lambda>p. the (snd p)) d"
  by (induction d) (auto simp: wf_dict_def split: option.splits)

lemma wf_dict_stored_ids:
  "wf_dict f d \<Longrightarrow> map (\<lambda>p. f (the (snd p))) d = map fst d"
  by (induction d) (auto simp: wf_dict_def split: option.splits)

lemma defined_values_wf:
  assumes "wf_dict f d"
  shows "defined_values d = map (\<lambda>p. the (snd p)) (own_properties d)"
    and "map f (defined_values d) = map fst (own_properties d)"
proof -
  have wf: "wf_dict f (own_properties d)"
    using assms by (rule wf_dict_own_properties)
  show eq: "defined_values d = map (\<lambda>p. the (snd p)) (own_properties d)"
    using wf_dict_stored [OF wf] by (simp add: defined_values_def Object_values_def)
  show "map f (defined_values d) = map fst (own_properties d)"
    using wf_dict_stored_ids [OF wf] by (simp add: eq comp_def)
qed

lemma find_defined_values:
  assumes "wf_dict f d"
  shows "find (\<lambda>r. f r = i) (defined_values d) = obj_get d i"
proof (cases "map_of d i")
  case None
  then have "i \<notin> fst ` set d" by (simp add: map_of_eq_None_iff)
  then have "i \<notin> set (map f (defined_values d))"
    using defined_values_wf(2) [OF assms] by (simp add: set_own_properties)
  then have "find (\<lambda>r. f r = i) (defined_values d) = None"
    by (auto simp: find_None_iff)
  then show ?thesis using None by (simp add: obj_get_def)
next
  case (Some v)
  then have mem: "(i, v) \<in> set d" by (rule map_of_SomeD)
  then obtain e where v: "v = Some e" and e: "f e = i"
    using assms by (auto simp: wf_dict_def list_all_iff split: option.splits)
  have "(i, v) \<in> set (own_properties d)" using mem by (simp add: set_own_properties)
  then have "e \<in> set (defined_values d)"
    using v by (force simp: defined_values_wf(1) [OF assms])
  moreover have "distinct (map f (defined_values d))"
    using assms by (simp add: defined_values_wf(2) [OF assms] distinct_keys_own_properties wf_dict_def)
  ultimately have "find (\<lambda>r. f r = f e) (defined_values d) = Some e"
    by (simp add: find_unique)
  then show ?thesis using Some v e by (simp add: obj_get_def)
qed

section \<open>The store after a report is committed\<close>

lemma RgetAllReviews_slices:
  "reviewsState (RgetAllReviews R s) = addMany review_id (reviewsList R) (reviewsState s)"
  "reviewsIndicators (RgetAllReviews R s) =
     addMany sind_id (indicators (normalizeReviewsReportEntity R)) (reviewsIndicators s)"
  "reviewsReport (RgetAllReviews R s) =
     addOne srep_id (report (normalizeReviewsReportEntity R)) (reviewsReport s)"
  by (simp_all add: RgetAllReviews_def Let_def normalizeReviewsReportEntity_def)

lemma indicator_ids_normalized:
  "map sind_id (indicators (normalizeReviewsReportEntity R))
     = map int [0..<length (reviewsIndicatorList R)]"
  by (rule nth_equalityI) (simp_all add: normalizeReviewsReportEntity_def nth_enumerate_eq)

lemma committed_indicators:
  "entities (reviewsIndicators (RgetAllReviews R initialRootState))
     = map (\<lambda>e. (sind_id e, Some e)) (indicators (normalizeReviewsReportEntity R))"
proof -
  have "distinct (map sind_id (indicators (normalizeReviewsReportEntity R)))"
    by (simp add: indicator_ids_normalized distinct_map)
  then show ?thesis
    using addMany_fresh [of sind_id "indicators (normalizeReviewsReportEntity R)" getInitialState]
    by (simp add: RgetAllReviews_slices initialRootState_def getInitialState_def has_key_def)
qed

lemma committed_report:
  "entities (reviewsReport (RgetAllReviews R initialRootState))
     = [(0, Some (report (normalizeReviewsReportEntity R)))]"
  by (simp add: RgetAllReviews_slices initialRootState_def getInitialState_def addOne_def
      has_key_def Let_def normalizeReviewsReportEntity_def)

lemma committed_reviews_distinct:
  "distinct (map review_id (reviewsList R)) \<Longrightarrow>
     entities (reviewsState (RgetAllReviews R initialRootState))
       = map (\<lambda>r. (review_id r, Some r)) (reviewsList R)"
  using addMany_fresh [of review_id "reviewsList R" getInitialState]
  by (simp add: RgetAllReviews_slices initialRootState_def getInitialState_def has_key_def)

lemma defined_values_committed_indicators:
  "defined_values (entities (reviewsIndicators (RgetAllReviews R initialRootState)))
   = indicators (normalizeReviewsReportEntity R)"
proof -
  let ?d = "map (\<lambda>e. (sind_id e, Some e)) (indicators (normalizeReviewsReportEntity R))"
  have keys: "map fst ?d = map int [0..<length (reviewsIndicatorList R)]"
    using indicator_ids_normalized [of R] by (simp add: comp_def)
  have "sorted (map fst ?d)"
    unfolding keys by (simp add: sorted_map sorted_wrt_mono_rel [of _ "(<)"])
  moreover have "\<forall>p\<in>set ?d. 0 \<le> fst p"
  proof -
    have "\<forall>k\<in>set (map fst ?d). 0 \<le> k" unfolding keys by auto
    then show ?thesis by simp
  qed
  ultimately have "own_properties ?d = ?d" by (rule own_properties_sorted)
  then show ?thesis
    by (simp add: committed_indicators defined_values_def Object_values_def comp_def filter_map)
qed

lemma defined_values_committed_report:
  "defined_values (entities (reviewsReport (RgetAllReviews R initialRootState)))
     = [report (normalizeReviewsReportEntity R)]"
  by (simp add: committed_report defined_values_def Object_values_def own_properties_def
      is_array_index_def)

lemma committed_reviews_lookup:
  assumes "distinct (map review_id (reviewsList R))" and "r \<in> set (reviewsList R)"
  shows "find (\<lambda>x. review_id x = review_id r)
           (selectDenormalizedReviews (RgetAllReviews R initialRootState)) = Some r"
proof -
  let ?d = "map (\<lambda>r. (review_id r, Some r)) (reviewsList R)"
  have wf: "wf_dict review_id ?d"
    using assms(1) by (simp add: wf_dict_def comp_def list_all_iff)
  have "distinct (map fst ?d)" using assms(1) by (simp add: comp_def)
  moreover have "(review_id r, Some r) \<in> set ?d" using assms(2) by auto
  ultimately have "map_of ?d (review_id r) = Some (Some r)" by (rule map_of_is_SomeI)
  then have "obj_get ?d (review_id r) = Some r" by (simp add: obj_get_def)
  then show ?thesis
    using find_defined_values [OF wf, of "review_id r"]
    by (simp add: selectDenormalizedReviews_def selectReviewsEntities_def denormalizeReviews_def
        committed_reviews_distinct [OF assms(1)])
qed

lemma committed_join:
  assumes "distinct (map review_id (reviewsList R))" and "set rs \<subseteq> set (reviewsList R)"
  shows "join_reviews (selectDenormalizedReviews (RgetAllReviews R initialRootState))
           (map review_id rs) = rs"
proof -
  have "\<forall>r\<in>set rs. find (\<lambda>review. review_id review = review_id r)
                        (selectDenormalizedReviews (RgetAllReviews R initialRootState)) = Some r"
    using assms committed_reviews_lookup by blast
  then have "filter_Boolean
           (map (\<lambda>r. find (\<lambda>review. review_id review = review_id r)
                        (selectDenormalizedReviews (RgetAllReviews R initialRootState))) rs)
           = map (\<lambda>r. r) rs"
    by (rule filter_Boolean_all_Some)
  then show ?thesis by (simp add: join_reviews_def comp_def)
qed

lemma committed_indicators_view:
  assumes "reviews_consistent R" and "distinct (map review_id (reviewsList R))"
  shows "selectDenormalizedReviewsIndicators (RgetAllReviews R initialRootState)
           = reviewsIndicatorList R"
proof -
  let ?s = "RgetAllReviews R initialRootState"
  let ?V = "selectDenormalizedReviews ?s"
  have sub: "set (ind_reviewsList ind) \<subseteq> set (reviewsList R)"
    if "ind \<in> set (reviewsIndicatorList R)" for ind
    using assms(1) that by (auto simp: reviews_consistent_def embedded_reviews_def list_all_iff)
  have eq: "selectDenormalizedReviewsIndicators ?s =
          map (denormalizeIndicator ?V) (indicators (normalizeReviewsReportEntity R))"
    by (simp only: selectDenormalizedReviewsIndicators_def denormalizeReviewsIndicators_def
        selectReviewsIndicatorsEntities_def defined_values_committed_indicators)
  show ?thesis
  proof (rule nth_equalityI)
    show "length (selectDenormalizedReviewsIndicators ?s) = length (reviewsIndicatorList R)"
      by (simp add: eq normalizeReviewsReportEntity_def)
  next
    fix i
    assume "i < length (selectDenormalizedReviewsIndicators ?s)"
    then have i: "i < length (reviewsIndicatorList R)"
      by (simp add: eq normalizeReviewsReportEntity_def)
    then have "set (ind_reviewsList (reviewsIndicatorList R ! i)) \<subseteq> set (reviewsList R)"
      by (simp add: sub)
    then have "join_reviews ?V (map review_id (ind_reviewsList (reviewsIndicatorList R ! i)))
           = ind_reviewsList (reviewsIndicatorList R ! i)"
      using assms(2) by (rule committed_join [rotated])
    then show "selectDenormalizedReviewsIndicators ?s ! i = reviewsIndicatorList R ! i"
      using i by (simp add: eq normalizeReviewsReportEntity_def nth_enumerate_eq
          denormalizeIndicator_def)
  qed
qed

lemma positional_join_all:
  "filter_Boolean (map (\<lambda>i. find_at_index xs i) (map int [0..<length xs])) = xs"
proof -
  have "\<forall>i\<in>set [0..<length xs]. find_at_index xs (int i) = Some (xs ! i)"
    by (simp add: find_at_index_eq)
  then have "filter_Boolean (map (\<lambda>i. find_at_index xs (int i)) [0..<length xs])
               = map (\<lambda>i. xs ! i) [0..<length xs]"
    by (rule filter_Boolean_all_Some)
  then show ?thesis by (simp add: comp_def map_nth)
qed

section \<open>Round trip\<close>

text \<open>
  C1 (as amended). Let R be a nested report in which every review embedded in an indicator
  is, field by field, one of the reviews of the top-level list, and in which the
  identifiers of the top-level list are pairwise distinct. Committing the normalizer's
  output for R to the empty store and deriving the report view gives exactly one report,
  equal to R: the same reviews and indicators, with the same field values, in the same
  order.
\<close>

theorem roundtrip_distinct_ids:
  assumes "reviews_consistent R" and "distinct (map review_id (reviewsList R))"
  shows "selectDenormalizedReviewsReports (RgetAllReviews R initialRootState) = [R]"
proof -
  let ?s = "RgetAllReviews R initialRootState"
  have rv: "join_reviews (selectDenormalizedReviews ?s) (map review_id (reviewsList R))
              = reviewsList R"
    using committed_join [OF assms(2), of "reviewsList R"] by simp
  have iv: "filter_Boolean
              (map (\<lambda>i. find_at_index (reviewsIndicatorList R) i)
                   (map int [0..<length (reviewsIndicatorList R)])) = reviewsIndicatorList R"
    by (rule positional_join_all)
  have ids: "srep_reviewsIndicatorIds (report (normalizeReviewsReportEntity R))
               = map int [0..<length (reviewsIndicatorList R)]"
    "srep_reviewIds (report (normalizeReviewsReportEntity R)) = map review_id (reviewsList R)"
    by (simp_all add: normalizeReviewsReportEntity_def map_index_enumerate)
  have "selectDenormalizedReviewsReports ?s =
          [denormalizeReport (selectDenormalizedReviews ?s) (reviewsIndicatorList R)
             (report (normalizeReviewsReportEntity R))]"
    by (simp only: selectDenormalizedReviewsReports_def denormalizeReviewsReports_def
        selectReviewsReportEntities_def defined_values_committed_report
        committed_indicators_view [OF assms] list.map)
  also have "\<dots> = [R]"
    by (simp only: denormalizeReport_def ids rv iv) simp
  finally show ?thesis .
qed

theorem roundtrip_distinct_ids_witness:
  "reviews_consistent example_report \<and> distinct (map review_id (reviewsList example_report)) \<and>
   selectDenormalizedReviewsReports (RgetAllReviews example_report initialRootState) = [example_report]"
proof -
  have c: "reviews_consistent example_report"
    by (simp add: reviews_consistent_def embedded_reviews_def example_report_def)
  have d: "distinct (map review_id (reviewsList example_report))"
    by (simp add: example_report_def)
  from roundtrip_distinct_ids [OF c d] c d show ?thesis by simp
qed

text \<open>
  Without distinct top-level identifiers the round trip loses data: the adapter keeps the
  first review stored under an identifier, so both references of the report resolve to it.
\<close>

theorem roundtrip_duplicate_id_counterexample:
  "reviews_consistent duplicate_id_report \<and>
   selectDenormalizedReviewsReports (RgetAllReviews duplicate_id_report initialRootState)
     = [\<lparr> reviewsList = [review_super, review_super],
          reviewsIndicatorList =
            [\<lparr> ind_reviewsList = [review_super], ind_type = NORMAL,
               ind_monthGrowthPercentage = 8 \<rparr>] \<rparr>] \<and>
   selectDenormalizedReviewsReports (RgetAllReviews duplicate_id_report initialRootState)
     \<noteq> [duplicate_id_report]"
  by code_simp

section \<open>Lenient joins\<close>

lemma join_reviews_resolvable:
  "join_reviews V is =
     map (\<lambda>i. the (find (\<lambda>r. review_id r = i) V)) (filter (\<lambda>i. i \<in> review_id ` set V) is)"
proof -
  have "(find (\<lambda>r. review_id r = i) V \<noteq> None) = (i \<in> review_id ` set V)" for i
    by (auto simp: find_None_iff)
  then show ?thesis by (simp add: join_reviews_def filter_Boolean_map)
qed

lemma positional_join:
  "filter_Boolean (map (\<lambda>i. find_at_index xs i) ks) =
     map (\<lambda>k. xs ! nat k) (filter (\<lambda>k. 0 \<le> k \<and> k < int (length xs)) ks)"
proof -
  have "(find_at_index xs k \<noteq> None) = (0 \<le> k \<and> k < int (length xs))" for k
    by (simp add: find_at_index_eq)
  moreover have "map (\<lambda>k. the (find_at_index xs k)) (filter (\<lambda>k. 0 \<le> k \<and> k < int (length xs)) ks)
      = map (\<lambda>k. xs ! nat k) (filter (\<lambda>k. 0 \<le> k \<and> k < int (length xs)) ks)"
    by (rule map_cong) (simp_all add: find_at_index_eq)
  ultimately show ?thesis by (simp add: filter_Boolean_map)
qed

lemma set_defined_values: "set (defined_values d) = {e. \<exists>k. (k, Some e) \<in> set d}"
proof -
  have "set (Object_values d) = snd ` set d"
    by (simp add: Object_values_def set_own_properties)
  then show ?thesis by (force simp: defined_values_def)
qed

text \<open>
  C3. In every store state the joins are lenient. The review list of an indicator view,
  and of a report view, holds the reviews found for exactly those stored review ids that
  some review of the review collection carries, in the order of the id list; the indicator
  list of a report view holds the elements of the indicators view at exactly those stored
  indicator ids that are positions of it, in order. Every other reference is left out; the
  selectors are total functions and raise nothing.
\<close>

theorem lenient_join:
  "selectDenormalizedReviewsIndicators s =
     map (\<lambda>indicator.
            \<lparr> ind_reviewsList =
                map (\<lambda>i. the (find (\<lambda>r. review_id r = i) (selectDenormalizedReviews s)))
                    (filter (\<lambda>i. i \<in> review_id ` set (selectDenormalizedReviews s))
                            (sind_reviewIds indicator)),
              ind_type = sind_type indicator,
              ind_monthGrowthPercentage = sind_monthGrowthPercentage indicator \<rparr>)
         (defined_values (entities (reviewsIndicators s))) \<and>
   selectDenormalizedReviewsReports s =
     map (\<lambda>rep.
            \<lparr> reviewsList =
                map (\<lambda>i. the (find (\<lambda>r. review_id r = i) (selectDenormalizedReviews s)))
                    (filter (\<lambda>i. i \<in> review_id ` set (selectDenormalizedReviews s))
                            (srep_reviewIds rep)),
              reviewsIndicatorList =
                map (\<lambda>k. selectDenormalizedReviewsIndicators s ! nat k)
                    (filter (\<lambda>k. 0 \<le> k \<and> k < int (length (selectDenormalizedReviewsIndicators s)))
                            (srep_reviewsIndicatorIds rep)) \<rparr>)
         (defined_values (entities (reviewsReport s))) \<and>
   set (selectDenormalizedReviews s) = {r. \<exists>k. (k, Some r) \<in> set (entities (reviewsState s))}"
  by (simp add: selectDenormalizedReviewsIndicators_def denormalizeReviewsIndicators_def
      denormalizeIndicator_def selectReviewsIndicatorsEntities_def
      selectDenormalizedReviewsReports_def denormalizeReviewsReports_def denormalizeReport_def
      selectReviewsReportEntities_def selectDenormalizedReviews_def denormalizeReviews_def
      selectReviewsEntities_def join_reviews_resolvable positional_join set_defined_values)

section \<open>The positional join of the report view\<close>

lemma insort_key_map_values:
  "insort_key fst (k, h v) (map (\<lambda>(k, v). (k, h v)) xs)
     = map (\<lambda>(k, v). (k, h v)) (insort_key fst (k, v) xs)"
  by (induction xs) auto

lemma sort_key_map_values:
  "sort_key fst (map (\<lambda>(k, v). (k, h v)) xs) = map (\<lambda>(k, v). (k, h v)) (sort_key fst xs)"
  by (induction xs) (auto simp: insort_key_map_values)

lemma own_properties_map_values:
  "own_properties (map (\<lambda>(k, v). (k, h v)) d) = map (\<lambda>(k, v). (k, h v)) (own_properties d)"
proof -
  have "filter (\<lambda>p. P (fst p)) (map (\<lambda>(k, v). (k, h v)) d)
          = map (\<lambda>(k, v). (k, h v)) (filter (\<lambda>p. P (fst p)) d)" for P
    by (induction d) auto
  from this [of is_array_index] this [of "\<lambda>k. \<not> is_array_index k"]
  show ?thesis by (simp add: own_properties_def sort_key_map_values)
qed

lemma defined_values_map_values:
  fixes h :: "'a \<Rightarrow> 'b" and d :: "'a Dictionary"
  shows "defined_values (map (\<lambda>(k, v). (k, map_option h v)) d) = map h (defined_values d)"
proof -
  have a: "map the (filter (\<lambda>x. x \<noteq> None) (map (map_option h) vs))
          = map h (map the (filter (\<lambda>x. x \<noteq> None) vs))" for vs :: "'a option list"
    by (induction vs) auto
  have b: "map snd (map (\<lambda>(k, v). (k, map_option h v)) ps) = map (map_option h) (map snd ps)"
    for ps :: "'a Dictionary"
    by (induction ps) auto
  show ?thesis
    by (simp only: defined_values_def Object_values_def own_properties_map_values a b)
qed

text \<open>
  C4. In every store state the report view resolves an indicator id k of a report record
  to the element at position k of the current indicators view, and leaves k out when the
  view has no such position. The identifier stored in an indicator record plays no part:
  rewriting the identifier fields of the stored indicator records by any function leaves
  the report view as it was.
\<close>

theorem report_indicators_by_position:
  "map reviewsIndicatorList (selectDenormalizedReviewsReports s) =
     map (\<lambda>rep. map (\<lambda>k. selectDenormalizedReviewsIndicators s ! nat k)
                    (filter (\<lambda>k. 0 \<le> k \<and> k < int (length (selectDenormalizedReviewsIndicators s)))
                            (srep_reviewsIndicatorIds rep)))
         (defined_values (entities (reviewsReport s))) \<and>
   selectDenormalizedReviewsReports
     (s\<lparr> reviewsIndicators := (reviewsIndicators s)
           \<lparr> entities := map (\<lambda>(k, v). (k, map_option (\<lambda>e. e\<lparr> sind_id := g e \<rparr>) v))
                              (entities (reviewsIndicators s)) \<rparr> \<rparr>)
     = selectDenormalizedReviewsReports s"
proof
  show "map reviewsIndicatorList (selectDenormalizedReviewsReports s) =
     map (\<lambda>rep. map (\<lambda>k. selectDenormalizedReviewsIndicators s ! nat k)
                    (filter (\<lambda>k. 0 \<le> k \<and> k < int (length (selectDenormalizedReviewsIndicators s)))
                            (srep_reviewsIndicatorIds rep)))
         (defined_values (entities (reviewsReport s)))"
    by (simp add: selectDenormalizedReviewsReports_def denormalizeReviewsReports_def
        denormalizeReport_def selectReviewsReportEntities_def positional_join comp_def)
next
  let ?s' = "s\<lparr> reviewsIndicators := (reviewsIndicators s)
           \<lparr> entities := map (\<lambda>(k, v). (k, map_option (\<lambda>e. e\<lparr> sind_id := g e \<rparr>) v))
                              (entities (reviewsIndicators s)) \<rparr> \<rparr>"
  have "denormalizeIndicator V (e\<lparr> sind_id := g e \<rparr>) = denormalizeIndicator V e" for V e
    by (simp add: denormalizeIndicator_def)
  then have "selectDenormalizedReviewsIndicators ?s' = selectDenormalizedReviewsIndicators s"
    by (simp add: selectDenormalizedReviewsIndicators_def denormalizeReviewsIndicators_def
        selectReviewsIndicatorsEntities_def selectDenormalizedReviews_def
        selectReviewsEntities_def defined_values_map_values comp_def)
  then show "selectDenormalizedReviewsReports ?s' = selectDenormalizedReviewsReports s"
    by (simp add: selectDenormalizedReviewsReports_def selectReviewsReportEntities_def
        selectDenormalizedReviews_def selectReviewsEntities_def)
qed

section \<open>What each derivation reads\<close>

text \<open>
  C6. Each derivation is a function of the collections it declares as inputs. Two stores
  with the same review dictionary have the same reviews view, whatever their indicator and
  report collections hold; two stores with the same review and indicator dictionaries have
  the same indicators view, whatever their report collections hold; and a derivation
  applied to the same store gives the same value.
\<close>

theorem derivations_read_declared_inputs:
  "(entities (reviewsState s1) = entities (reviewsState s2) \<longrightarrow>
      selectDenormalizedReviews s1 = selectDenormalizedReviews s2) \<and>
   (entities (reviewsState s1) = entities (reviewsState s2) \<and>
    entities (reviewsIndicators s1) = entities (reviewsIndicators s2) \<longrightarrow>
      selectDenormalizedReviewsIndicators s1 = selectDenormalizedReviewsIndicators s2) \<and>
   (s1 = s2 \<longrightarrow>
      selectDenormalizedReviews s1 = selectDenormalizedReviews s2 \<and>
      selectDenormalizedReviewsIndicators s1 = selectDenormalizedReviewsIndicators s2 \<and>
      selectDenormalizedReviewsReports s1 = selectDenormalizedReviewsReports s2)"
  by (simp add: selectDenormalizedReviews_def selectReviewsEntities_def
      selectDenormalizedReviewsIndicators_def selectReviewsIndicatorsEntities_def)

theorem derivations_read_declared_inputs_witness:
  "entities (reviewsState store_reviews_only) = entities (reviewsState store_full) \<and>
   reviewsIndicators store_reviews_only \<noteq> reviewsIndicators store_full \<and>
   selectDenormalizedReviews store_reviews_only = selectDenormalizedReviews store_full \<and>
   entities (reviewsState store_full) = entities (reviewsState store_report_changed) \<and>
   entities (reviewsIndicators store_full) = entities (reviewsIndicators store_report_changed) \<and>
   reviewsReport store_full \<noteq> reviewsReport store_report_changed \<and>
   selectDenormalizedReviewsIndicators store_full = selectDenormalizedReviewsIndicators store_report_changed \<and>
   selectDenormalizedReviewsReports store_full = selectDenormalizedReviewsReports store_full"
proof -
  have a: "entities (reviewsState store_reviews_only) = entities (reviewsState store_full)"
    by (simp add: store_full_def)
  have b: "entities (reviewsState store_full) = entities (reviewsState store_report_changed)"
    and c: "entities (reviewsIndicators store_full) = entities (reviewsIndicators store_report_changed)"
    by (simp_all add: store_report_changed_def)
  have d: "reviewsIndicators store_reviews_only \<noteq> reviewsIndicators store_full"
    by code_simp
  have e: "reviewsReport store_full \<noteq> reviewsReport store_report_changed"
    by code_simp
  from derivations_read_declared_inputs [of store_reviews_only store_full]
    derivations_read_declared_inputs [of store_full store_report_changed]
    derivations_read_declared_inputs [of store_full store_full] a b c d e
  show ?thesis by simp
qed

section \<open>Inserting into a collection\<close>

lemma obj_get_fresh: "\<not> has_key k d \<Longrightarrow> obj_get (d @ [(k, v)]) k = v"
proof -
  assume "\<not> has_key k d"
  then have "map_of d k = None" by (simp add: has_key_def map_of_eq_None_iff)
  then show ?thesis by (simp add: obj_get_def map_add_def)
qed

text \<open>
  C5 (as amended). For every collection state and every record r, insert-one(r) stores r
  under r's identifier, at the end of the id list and of the dictionary, when no record
  is stored under that identifier; when one is, insert-one(r) leaves the collection as it
  was and the stored record is kept. insert-many is insert-one repeated over the list,
  from left to right.
\<close>

theorem addOne_adds_only_new:
  "(\<not> has_key (selectId r) (entities st) \<longrightarrow>
      ids (addOne selectId r st) = ids st @ [selectId r] \<and>
      entities (addOne selectId r st) = entities st @ [(selectId r, Some r)] \<and>
      obj_get (entities (addOne selectId r st)) (selectId r) = Some r) \<and>
   (has_key (selectId r) (entities st) \<longrightarrow> addOne selectId r st = st) \<and>
   addMany selectId [] st = st \<and>
   addMany selectId (r # rs) st = addMany selectId rs (addOne selectId r st)"
  by (simp add: addOne_fresh addOne_present obj_get_fresh)

theorem addOne_adds_only_new_witness:
  "has_key (review_id review_moyen) (entities (addOne review_id review_super getInitialState)) \<and>
   addOne review_id review_moyen (addOne review_id review_super getInitialState)
     = addOne review_id review_super getInitialState \<and>
   \<not> has_key (review_id review_bien) (entities (addOne review_id review_super getInitialState)) \<and>
   obj_get (entities (addOne review_id review_bien (addOne review_id review_super getInitialState)))
           (review_id review_bien) = Some review_bien"
proof -
  have a: "has_key (review_id review_moyen) (entities (addOne review_id review_super getInitialState))"
    by code_simp
  have b: "\<not> has_key (review_id review_bien) (entities (addOne review_id review_super getInitialState))"
    by code_simp
  from addOne_adds_only_new [of review_id review_moyen "addOne review_id review_super getInitialState"] a
  have c: "addOne review_id review_moyen (addOne review_id review_super getInitialState)
             = addOne review_id review_super getInitialState"
    by blast
  from addOne_adds_only_new [of review_id review_bien "addOne review_id review_super getInitialState"] b
  have d: "obj_get (entities (addOne review_id review_bien (addOne review_id review_super getInitialState)))
             (review_id review_bien) = Some review_bien"
    by blast
  from a b c d show ?thesis by blast
qed

text \<open>
  Inserting a second review under the identifier 1 does not overwrite the first: the
  collection still holds the review inserted first.
\<close>

theorem addOne_overwrite_counterexample:
  "obj_get (entities (reviewsState
      (foldl dispatch initialRootState [addReview review_super, addReview review_moyen]))) (review_id review_moyen)
     = Some review_super \<and>
   obj_get (entities (reviewsState
      (foldl dispatch initialRootState [addReview review_super, addReview review_moyen]))) (review_id review_moyen)
     \<noteq> Some review_moyen"
  by code_simp

section \<open>How many reviews the store holds\<close>

lemma addOne_keys:
  "map fst (entities (addOne f e st)) =
     (if has_key (f e) (entities st) then map fst (entities st) else map fst (entities st) @ [f e])"
  by (simp add: addOne_fresh addOne_present)

lemma addMany_keys:
  "distinct (map fst (entities st)) \<Longrightarrow>
     distinct (map fst (entities (addMany f es st))) \<and>
     set (map fst (entities (addMany f es st))) = set (map fst (entities st)) \<union> f ` set es"
proof (induction es arbitrary: st)
  case Nil
  then show ?case by simp
next
  case (Cons e es)
  have "distinct (map fst (entities (addOne f e st)))"
    using Cons.prems by (auto simp: addOne_keys has_key_def)
  from Cons.IH [OF this] show ?case
    by (auto simp: addOne_keys has_key_def)
qed

lemma committed_reviews_count:
  "length (entities (reviewsState (RgetAllReviews R initialRootState)))
     = card (review_id ` set (reviewsList R))"
proof -
  let ?d = "entities (addMany review_id (reviewsList R) getInitialState)"
  have "distinct (map fst ?d) \<and> set (map fst ?d) = review_id ` set (reviewsList R)"
    using addMany_keys [of getInitialState review_id "reviewsList R"]
    by (simp add: getInitialState_def)
  then have "card (review_id ` set (reviewsList R)) = length (map fst ?d)"
    using distinct_card [of "map fst ?d"] by simp
  then show ?thesis
    by (simp add: RgetAllReviews_slices initialRootState_def)
qed

text \<open>
  C7 (as amended). After a nested report is normalized and committed to the empty store,
  the review collection holds exactly one entry for each distinct identifier of the
  report's top-level review list. It holds exactly M entries, M being the number of
  distinct identifiers embedded across the indicators, when the top-level list and the
  indicators carry the same set of identifiers.
\<close>

theorem committed_reviews_count_distinct:
  "length (entities (reviewsState (RgetAllReviews R initialRootState)))
     = card (review_id ` set (reviewsList R)) \<and>
   (review_id ` set (reviewsList R) = review_id ` set (embedded_reviews R) \<longrightarrow>
      length (entities (reviewsState (RgetAllReviews R initialRootState)))
        = card (review_id ` set (embedded_reviews R)))"
  by (simp add: committed_reviews_count)

theorem committed_reviews_count_distinct_witness:
  "review_id ` set (reviewsList example_report) = review_id ` set (embedded_reviews example_report) \<and>
   card (review_id ` set (embedded_reviews example_report)) = 2 \<and>
   length (entities (reviewsState (RgetAllReviews example_report initialRootState))) = 2"
proof -
  have a: "review_id ` set (reviewsList example_report) = review_id ` set (embedded_reviews example_report)"
    by (auto simp: example_report_def embedded_reviews_def)
  have b: "card (review_id ` set (embedded_reviews example_report)) = 2"
    by (simp add: example_report_def embedded_reviews_def)
  from committed_reviews_count_distinct [of example_report] a b show ?thesis by simp
qed

text \<open>
  The collection follows the top-level list, not the embedded reviews: with two embedded
  reviews that share one identifier and two top-level reviews, it holds two entries.
\<close>

theorem committed_reviews_count_counterexample:
  "length (embedded_reviews twice_embedded_report) = 2 \<and>
   length (remdups (map review_id (embedded_reviews twice_embedded_report))) = 1 \<and>
   length (entities (reviewsState (RgetAllReviews twice_embedded_report initialRootState))) = 2"
  by code_simp

section \<open>The order of the reviews view\<close>

lemma addMany_snoc: "addMany f (es @ [e]) st = addOne f e (addMany f es st)"
  by (simp add: addMany_def)

lemma inserts_slice:
  "reviewsState (foldl dispatch s (map addReview rs)) = addMany review_id rs (reviewsState s)"
  by (induction rs arbitrary: s) simp_all

lemma addMany_ids_mirror:
  "ids st = map fst (entities st) \<Longrightarrow>
     ids (addMany f es st) = map fst (entities (addMany f es st))"
proof (induction es arbitrary: st)
  case Nil
  then show ?case by simp
next
  case (Cons e es)
  have "ids (addOne f e st) = map fst (entities (addOne f e st))"
    using Cons.prems by (cases "has_key (f e) (entities st)") (simp_all add: addOne_fresh addOne_present)
  then show ?case using Cons.IH by simp
qed

lemma addMany_wf:
  "wf_dict f (entities st) \<Longrightarrow> wf_dict f (entities (addMany f es st))"
proof (induction es arbitrary: st)
  case Nil
  then show ?case by simp
next
  case (Cons e es)
  have "wf_dict f (entities (addOne f e st))"
    using Cons.prems
    by (cases "has_key (f e) (entities st)")
       (simp_all add: addOne_fresh addOne_present wf_dict_def has_key_def)
  then show ?case using Cons.IH by simp
qed

lemma ids_first_insertion:
  "ids (addMany f rs getInitialState) = rev (remdups (rev (map f rs)))"
proof (induction rs rule: rev_induct)
  case Nil
  then show ?case by (simp add: getInitialState_def)
next
  case (snoc r rs)
  let ?st = "addMany f rs getInitialState"
  have keys: "set (map fst (entities ?st)) = f ` set rs"
    using addMany_keys [of getInitialState f rs] by (simp add: getInitialState_def)
  have mirror: "ids ?st = map fst (entities ?st)"
    by (rule addMany_ids_mirror) (simp add: getInitialState_def)
  show ?case
  proof (cases "f r \<in> f ` set rs")
    case True
    then have "has_key (f r) (entities ?st)" using keys by (simp add: has_key_def)
    then have "addOne f r ?st = ?st" by (rule addOne_present)
    then show ?thesis using True snoc.IH by (simp add: addMany_snoc)
  next
    case False
    then have "\<not> has_key (f r) (entities ?st)" using keys by (simp add: has_key_def)
    then have "ids (addOne f r ?st) = ids ?st @ [f r]" by (simp add: addOne_fresh)
    then show ?thesis using False snoc.IH by (simp add: addMany_snoc)
  qed
qed

lemma map_insort_key: "map f (insort_key f x xs) = insort (f x) (map f xs)"
  by (induction xs) auto

lemma map_sort_key: "map f (sort_key f xs) = sort (map f xs)"
  by (induction xs) (simp_all add: map_insort_key)

lemma keys_own_properties:
  "map fst (own_properties d) =
     sort (filter is_array_index (map fst d)) @ filter (\<lambda>k. \<not> is_array_index k) (map fst d)"
  by (simp add: own_properties_def map_sort_key filter_map comp_def)

text \<open>
  C9 (as amended). For every sequence of insert operations on an empty collection (no
  comparator being configured), the collection's id list holds the inserted identifiers
  in the order of their first insertion. The reviews view enumerates the entity
  dictionary, not the id list: it yields the stored reviews whose identifier is an array
  index (an integer from 0 to 4294967294) first, in ascending order of identifier, and
  then the other stored reviews in insertion order. It yields the reviews in insertion
  order when they are inserted with non-negative, strictly increasing identifiers.
\<close>

theorem reviews_view_order:
  "ids (reviewsState (foldl dispatch initialRootState (map addReview rs)))
     = rev (remdups (rev (map review_id rs))) \<and>
   map review_id (selectDenormalizedReviews (foldl dispatch initialRootState (map addReview rs)))
     = sort (filter is_array_index
               (ids (reviewsState (foldl dispatch initialRootState (map addReview rs)))))
       @ filter (\<lambda>k. \<not> is_array_index k)
               (ids (reviewsState (foldl dispatch initialRootState (map addReview rs)))) \<and>
   (sorted_wrt (<) (map review_id rs) \<and> list_all (\<lambda>r. 0 \<le> review_id r) rs \<longrightarrow>
      selectDenormalizedReviews (foldl dispatch initialRootState (map addReview rs)) = rs)"
proof -
  let ?s = "foldl dispatch initialRootState (map addReview rs)"
  have slice: "reviewsState ?s = addMany review_id rs getInitialState"
    by (simp add: inserts_slice initialRootState_def)
  have a: "ids (reviewsState ?s) = rev (remdups (rev (map review_id rs)))"
    by (simp add: slice ids_first_insertion)
  have mirror: "ids (reviewsState ?s) = map fst (entities (reviewsState ?s))"
    unfolding slice by (rule addMany_ids_mirror) (simp add: getInitialState_def)
  have wf: "wf_dict review_id (entities (reviewsState ?s))"
    unfolding slice by (rule addMany_wf) (simp add: getInitialState_def wf_dict_def)
  have b: "map review_id (selectDenormalizedReviews ?s)
             = sort (filter is_array_index (ids (reviewsState ?s)))
               @ filter (\<lambda>k. \<not> is_array_index k) (ids (reviewsState ?s))"
    using defined_values_wf(2) [OF wf]
    by (simp add: selectDenormalizedReviews_def denormalizeReviews_def selectReviewsEntities_def
        keys_own_properties mirror)
  have c: "selectDenormalizedReviews ?s = rs"
    if asc: "sorted_wrt (<) (map review_id rs)" and nonneg: "list_all (\<lambda>r. 0 \<le> review_id r) rs"
  proof -
    let ?d = "map (\<lambda>r. (review_id r, Some r)) rs"
    have dist: "distinct (map review_id rs)"
      using asc by (simp add: strict_sorted_iff)
    have ents: "entities (reviewsState ?s) = ?d"
      using addMany_fresh [of review_id rs getInitialState] dist
      by (simp add: slice getInitialState_def has_key_def)
    have "sorted (map fst ?d)"
      using asc by (simp add: comp_def strict_sorted_iff)
    moreover have "\<forall>p\<in>set ?d. 0 \<le> fst p"
      using nonneg by (auto simp: list_all_iff)
    ultimately have "own_properties ?d = ?d" by (rule own_properties_sorted)
    then show ?thesis
      by (simp add: selectDenormalizedReviews_def denormalizeReviews_def selectReviewsEntities_def
          ents defined_values_def Object_values_def comp_def filter_map)
  qed
  from a b c show ?thesis by blast
qed

theorem reviews_view_order_witness:
  "sorted_wrt (<) (map review_id [review_super, review_bien]) \<and>
   list_all (\<lambda>r. 0 \<le> review_id r) [review_super, review_bien] \<and>
   selectDenormalizedReviews (foldl dispatch initialRootState (map addReview [review_super, review_bien]))
     = [review_super, review_bien]"
proof -
  have a: "sorted_wrt (<) (map review_id [review_super, review_bien])"
    by (simp add: review_super_def review_bien_def)
  have b: "list_all (\<lambda>r. 0 \<le> review_id r) [review_super, review_bien]"
    by (simp add: review_super_def review_bien_def)
  from reviews_view_order [of "[review_super, review_bien]"] a b show ?thesis by blast
qed

text \<open>
  Review 2 inserted before review 1: the id list keeps the insertion order, the reviews
  view does not.
\<close>

theorem reviews_view_order_counterexample:
  "store_2_then_1 = foldl dispatch initialRootState [addReview review_bien, addReview review_super] \<and>
   ids (reviewsState store_2_then_1) = [2, 1] \<and>
   selectDenormalizedReviews store_2_then_1 = [review_super, review_bien] \<and>
   selectDenormalizedReviews store_2_then_1 \<noteq> [review_bien, review_super]"
  by code_simp

section \<open>Removing an indicator\<close>

lemma filter_key_distinct:
  "distinct (map fst d) \<Longrightarrow> map_of d k = Some v \<Longrightarrow> filter (\<lambda>p. fst p = k) d = [(k, v)]"
proof (induction d)
  case Nil
  then show ?case by simp
next
  case (Cons p d)
  show ?case
  proof (cases "fst p = k")
    case True
    then have "\<forall>q\<in>set d. fst q \<noteq> k" using Cons.prems(1) by (auto simp: rev_image_eqI)
    then have "filter (\<lambda>p. fst p = k) d = []" by (simp add: filter_empty_conv)
    then show ?thesis using True Cons.prems(2) by (cases p) simp
  next
    case False
    then show ?thesis using Cons by (cases p) simp
  qed
qed

lemma removeOne_present:
  "has_key k (entities st) \<Longrightarrow>
     entities (removeOne k st) = obj_delete k (entities st) \<and>
     ids (removeOne k st) = filter (\<lambda>i. has_key i (obj_delete k (entities st))) (ids st)"
  by (simp add: removeOne_def removeMany_def)

lemma defined_values_single: "defined_values [(k, Some e)] = [e]"
  by (simp add: defined_values_def Object_values_def own_properties_def)

lemma positional_join_single:
  "filter_Boolean (map (\<lambda>i. find_at_index [x] i) ks) = map (\<lambda>k. x) (filter (\<lambda>k. k = 0) ks)"
  by (induction ks) (simp_all add: filter_Boolean_def find_at_index_eq)

text \<open>
  C10. Take a store whose indicator collection holds records under the identifiers 0 and
  1 and nothing else, b being the record stored under 1. After remove-one(0) on the
  indicator collection, b is still stored under the identifier 1 and nothing is stored
  under 0; the indicators view has the single element derived from b; the lookup of the
  report view finds that element for the indicator id 0 and finds nothing for the
  indicator id 1. So the indicator list of every report view holds the element derived
  from b once for each occurrence of the id 0 in the record's indicator-id list, and
  nothing for any other id: for the id list [0, 1] it is that one element, selected by
  the id 0 while the id 1 is dropped; for [0] alone it is that element; for [1] alone it
  is empty.
\<close>

theorem remove_indicator_retargets:
  assumes "distinct (map fst (entities (reviewsIndicators s)))"
    and "set (map fst (entities (reviewsIndicators s))) = {0, 1}"
    and "obj_get (entities (reviewsIndicators s)) 1 = Some b"
  shows "entities (reviewsIndicators (dispatch s (removeReviewsIndicator 0))) = [(1, Some b)] \<and>
         selectDenormalizedReviewsIndicators (dispatch s (removeReviewsIndicator 0))
           = [denormalizeIndicator (selectDenormalizedReviews s) b] \<and>
         find_at_index (selectDenormalizedReviewsIndicators (dispatch s (removeReviewsIndicator 0))) 0
           = Some (denormalizeIndicator (selectDenormalizedReviews s) b) \<and>
         find_at_index (selectDenormalizedReviewsIndicators (dispatch s (removeReviewsIndicator 0))) 1
           = None \<and>
         map reviewsIndicatorList
             (selectDenormalizedReviewsReports (dispatch s (removeReviewsIndicator 0)))
           = map (\<lambda>rep. map (\<lambda>k. denormalizeIndicator (selectDenormalizedReviews s) b)
                            (filter (\<lambda>k. k = 0) (srep_reviewsIndicatorIds rep)))
                 (defined_values (entities (reviewsReport s))) \<and>
         (list_all (\<lambda>rep. srep_reviewsIndicatorIds rep = [0, 1])
                   (defined_values (entities (reviewsReport s))) \<longrightarrow>
            map reviewsIndicatorList
                (selectDenormalizedReviewsReports (dispatch s (removeReviewsIndicator 0)))
              = map (\<lambda>rep. [denormalizeIndicator (selectDenormalizedReviews s) b])
                    (defined_values (entities (reviewsReport s)))) \<and>
         (list_all (\<lambda>rep. srep_reviewsIndicatorIds rep = [0])
                   (defined_values (entities (reviewsReport s))) \<longrightarrow>
            map reviewsIndicatorList
                (selectDenormalizedReviewsReports (dispatch s (removeReviewsIndicator 0)))
              = map (\<lambda>rep. [denormalizeIndicator (selectDenormalizedReviews s) b])
                    (defined_values (entities (reviewsReport s)))) \<and>
         (list_all (\<lambda>rep. srep_reviewsIndicatorIds rep = [1])
                   (defined_values (entities (reviewsReport s))) \<longrightarrow>
            map reviewsIndicatorList
                (selectDenormalizedReviewsReports (dispatch s (removeReviewsIndicator 0)))
              = map (\<lambda>rep. []) (defined_values (entities (reviewsReport s))))"
proof -
  let ?E = "entities (reviewsIndicators s)"
  let ?s' = "dispatch s (removeReviewsIndicator 0)"
  let ?x = "denormalizeIndicator (selectDenormalizedReviews s) b"
  let ?reps = "defined_values (entities (reviewsReport s))"
  have present: "has_key 0 ?E" using assms(2) by (simp add: has_key_def)
  have stored: "map_of ?E 1 = Some (Some b)"
    using assms(3) by (simp add: obj_get_def split: option.splits)
  have "filter (\<lambda>p. fst p \<noteq> 0) ?E = filter (\<lambda>p. fst p = 1) ?E"
  proof (rule filter_cong [OF refl])
    fix p assume "p \<in> set ?E"
    then have "fst p \<in> {0, 1}" using assms(2) by force
    then show "(fst p \<noteq> 0) = (fst p = 1)" by auto
  qed
  then have del: "obj_delete 0 ?E = [(1, Some b)]"
    using filter_key_distinct [OF assms(1) stored] by (simp add: obj_delete_def)
  have ents: "entities (reviewsIndicators ?s') = [(1, Some b)]"
    using removeOne_present [OF present] del by simp
  have rv: "selectDenormalizedReviews ?s' = selectDenormalizedReviews s"
    by (simp add: selectDenormalizedReviews_def selectReviewsEntities_def)
  have iv: "selectDenormalizedReviewsIndicators ?s' = [?x]"
    by (simp only: selectDenormalizedReviewsIndicators_def denormalizeReviewsIndicators_def
        selectReviewsIndicatorsEntities_def ents defined_values_single rv list.map)
  have at0: "find_at_index (selectDenormalizedReviewsIndicators ?s') 0 = Some ?x"
    unfolding iv by (simp add: find_at_index_eq)
  have at1: "find_at_index (selectDenormalizedReviewsIndicators ?s') 1 = None"
    unfolding iv by (simp add: find_at_index_eq)
  have "map reviewsIndicatorList (selectDenormalizedReviewsReports ?s')
          = map (\<lambda>rep. filter_Boolean (map (\<lambda>i. find_at_index [?x] i) (srep_reviewsIndicatorIds rep)))
                ?reps"
    using iv
    by (simp add: selectDenormalizedReviewsReports_def denormalizeReviewsReports_def
        selectReviewsReportEntities_def denormalizeReport_def comp_def)
  then have gen: "map reviewsIndicatorList (selectDenormalizedReviewsReports ?s')
          = map (\<lambda>rep. map (\<lambda>k. ?x) (filter (\<lambda>k. k = 0) (srep_reviewsIndicatorIds rep))) ?reps"
    by (simp only: positional_join_single)
  have both: "map reviewsIndicatorList (selectDenormalizedReviewsReports ?s') = map (\<lambda>rep. [?x]) ?reps"
    if "list_all (\<lambda>rep. srep_reviewsIndicatorIds rep = [0, 1]) ?reps"
    unfolding gen using that by (intro map_cong) (auto simp: list_all_iff)
  have only0: "map reviewsIndicatorList (selectDenormalizedReviewsReports ?s') = map (\<lambda>rep. [?x]) ?reps"
    if "list_all (\<lambda>rep. srep_reviewsIndicatorIds rep = [0]) ?reps"
    unfolding gen using that by (intro map_cong) (auto simp: list_all_iff)
  have only1: "map reviewsIndicatorList (selectDenormalizedReviewsReports ?s') = map (\<lambda>rep. []) ?reps"
    if "list_all (\<lambda>rep. srep_reviewsIndicatorIds rep = [1]) ?reps"
    unfolding gen using that by (intro map_cong) (auto simp: list_all_iff)
  show ?thesis
  proof (intro conjI impI)
    show "entities (reviewsIndicators ?s') = [(1, Some b)]" by (rule ents)
    show "selectDenormalizedReviewsIndicators ?s' = [?x]" by (rule iv)
    show "find_at_index (selectDenormalizedReviewsIndicators ?s') 0 = Some ?x" by (rule at0)
    show "find_at_index (selectDenormalizedReviewsIndicators ?s') 1 = None" by (rule at1)
    show "map reviewsIndicatorList (selectDenormalizedReviewsReports ?s')
          = map (\<lambda>rep. map (\<lambda>k. ?x) (filter (\<lambda>k. k = 0) (srep_reviewsIndicatorIds rep))) ?reps"
      by (rule gen)
  next
    assume "list_all (\<lambda>rep. srep_reviewsIndicatorIds rep = [0, 1]) ?reps"
    then show "map reviewsIndicatorList (selectDenormalizedReviewsReports ?s') = map (\<lambda>rep. [?x]) ?reps"
      by (rule both)
  next
    assume "list_all (\<lambda>rep. srep_reviewsIndicatorIds rep = [0]) ?reps"
    then show "map reviewsIndicatorList (selectDenormalizedReviewsReports ?s') = map (\<lambda>rep. [?x]) ?reps"
      by (rule only0)
  next
    assume "list_all (\<lambda>rep. srep_reviewsIndicatorIds rep = [1]) ?reps"
    then show "map reviewsIndicatorList (selectDenormalizedReviewsReports ?s') = map (\<lambda>rep. []) ?reps"
      by (rule only1)
  qed
qed

theorem remove_indicator_retargets_witness:
  "distinct (map fst (entities (reviewsIndicators (RgetAllReviews example_report initialRootState)))) \<and>
   set (map fst (entities (reviewsIndicators (RgetAllReviews example_report initialRootState)))) = {0, 1} \<and>
   obj_get (entities (reviewsIndicators (RgetAllReviews example_report initialRootState))) 1
     = Some example_bon_record \<and>
   list_all (\<lambda>rep. srep_reviewsIndicatorIds rep = [0, 1])
     (defined_values (entities (reviewsReport (RgetAllReviews example_report initialRootState)))) \<and>
   entities (reviewsIndicators
      (dispatch (RgetAllReviews example_report initialRootState) (removeReviewsIndicator 0)))
     = [(1, Some example_bon_record)] \<and>
   find_at_index (selectDenormalizedReviewsIndicators
      (dispatch (RgetAllReviews example_report initialRootState) (removeReviewsIndicator 0))) 0
     = Some example_bon_view \<and>
   find_at_index (selectDenormalizedReviewsIndicators
      (dispatch (RgetAllReviews example_report initialRootState) (removeReviewsIndicator 0))) 1
     = None \<and>
   map reviewsIndicatorList
       (selectDenormalizedReviewsReports
          (dispatch (RgetAllReviews example_report initialRootState) (removeReviewsIndicator 0)))
     = [ [example_bon_view] ] \<and>
   distinct (map fst (entities (reviewsIndicators store_report_ids_0))) \<and>
   set (map fst (entities (reviewsIndicators store_report_ids_0))) = {0, 1} \<and>
   obj_get (entities (reviewsIndicators store_report_ids_0)) 1 = Some example_bon_record \<and>
   list_all (\<lambda>rep. srep_reviewsIndicatorIds rep = [0])
     (defined_values (entities (reviewsReport store_report_ids_0))) \<and>
   map reviewsIndicatorList
       (selectDenormalizedReviewsReports (dispatch store_report_ids_0 (removeReviewsIndicator 0)))
     = [ [example_bon_view] ] \<and>
   distinct (map fst (entities (reviewsIndicators store_report_ids_1))) \<and>
   set (map fst (entities (reviewsIndicators store_report_ids_1))) = {0, 1} \<and>
   obj_get (entities (reviewsIndicators store_report_ids_1)) 1 = Some example_bon_record \<and>
   list_all (\<lambda>rep. srep_reviewsIndicatorIds rep = [1])
     (defined_values (entities (reviewsReport store_report_ids_1))) \<and>
   map reviewsIndicatorList
       (selectDenormalizedReviewsReports (dispatch store_report_ids_1 (removeReviewsIndicator 0)))
     = [ [] ]"
proof -
  let ?s = "RgetAllReviews example_report initialRootState"
  have a: "distinct (map fst (entities (reviewsIndicators ?s)))"
    by code_simp
  have b: "set (map fst (entities (reviewsIndicators ?s))) = {0, 1}"
    by code_simp
  have c: "obj_get (entities (reviewsIndicators ?s)) 1 = Some example_bon_record"
    by code_simp
  have d: "list_all (\<lambda>rep. srep_reviewsIndicatorIds rep = [0, 1])
             (defined_values (entities (reviewsReport ?s)))"
    by code_simp
  have x: "denormalizeIndicator (selectDenormalizedReviews ?s) example_bon_record = example_bon_view"
    by code_simp
  have n: "map (\<lambda>rep. [example_bon_view]) (defined_values (entities (reviewsReport ?s)))
             = [ [example_bon_view] ]"
    by code_simp
  have a0: "distinct (map fst (entities (reviewsIndicators store_report_ids_0)))"
    by code_simp
  have b0: "set (map fst (entities (reviewsIndicators store_report_ids_0))) = {0, 1}"
    by code_simp
  have c0: "obj_get (entities (reviewsIndicators store_report_ids_0)) 1 = Some example_bon_record"
    by code_simp
  have d0: "list_all (\<lambda>rep. srep_reviewsIndicatorIds rep = [0])
              (defined_values (entities (reviewsReport store_report_ids_0)))"
    by code_simp
  have x0: "denormalizeIndicator (selectDenormalizedReviews store_report_ids_0) example_bon_record
              = example_bon_view"
    by code_simp
  have n0: "map (\<lambda>rep. [example_bon_view]) (defined_values (entities (reviewsReport store_report_ids_0)))
              = [ [example_bon_view] ]"
    by code_simp
  have a1: "distinct (map fst (entities (reviewsIndicators store_report_ids_1)))"
    by code_simp
  have b1: "set (map fst (entities (reviewsIndicators store_report_ids_1))) = {0, 1}"
    by code_simp
  have c1: "obj_get (entities (reviewsIndicators store_report_ids_1)) 1 = Some example_bon_record"
    by code_simp
  have d1: "list_all (\<lambda>rep. srep_reviewsIndicatorIds rep = [1])
              (defined_values (entities (reviewsReport store_report_ids_1)))"
    by code_simp
  have n1: "map (\<lambda>rep. []) (defined_values (entities (reviewsReport store_report_ids_1)))
              = [ ([] :: IReviewsIndicatorsEntity list) ]"
    by code_simp
  note inst = remove_indicator_retargets [OF a b c]
  note inst0 = remove_indicator_retargets [OF a0 b0 c0]
  note inst1 = remove_indicator_retargets [OF a1 b1 c1]
  from inst have e: "entities (reviewsIndicators (dispatch ?s (removeReviewsIndicator 0)))
                       = [(1, Some example_bon_record)]"
    by (rule conjunct1)
  from inst have f0: "find_at_index (selectDenormalizedReviewsIndicators
                        (dispatch ?s (removeReviewsIndicator 0))) 0 = Some example_bon_view"
    unfolding x by blast
  from inst have f1: "find_at_index (selectDenormalizedReviewsIndicators
                        (dispatch ?s (removeReviewsIndicator 0))) 1 = None"
    by blast
  from inst d have r: "map reviewsIndicatorList
       (selectDenormalizedReviewsReports (dispatch ?s (removeReviewsIndicator 0)))
     = [ [example_bon_view] ]"
    unfolding x n by blast
  from inst0 d0 have r0: "map reviewsIndicatorList
       (selectDenormalizedReviewsReports (dispatch store_report_ids_0 (removeReviewsIndicator 0)))
     = [ [example_bon_view] ]"
    unfolding x0 n0 by blast
  from inst1 d1 have r1: "map reviewsIndicatorList
       (selectDenormalizedReviewsReports (dispatch store_report_ids_1 (removeReviewsIndicator 0)))
     = [ [] ]"
    unfolding n1 by blast
  show ?thesis
    by (intro conjI) (rule a b c d e f0 f1 r a0 b0 c0 d0 r0 a1 b1 c1 d1 r1)+
qed

section \<open>Updating a review\<close>

lemma with_message_id [simp]: "review_id (with_message i m r) = review_id r"
  by (simp add: with_message_def)

lemma with_message_absent:
  "wf_dict review_id d \<Longrightarrow> \<not> has_key i d \<Longrightarrow>
     map (\<lambda>(k, v). (k, map_option (with_message i m) v)) d = d"
  by (induction d) (auto simp: wf_dict_def has_key_def with_message_def split: option.splits)

lemma obj_set_message:
  "wf_dict review_id d \<Longrightarrow> obj_get d i = Some r0 \<Longrightarrow>
     obj_set i (Some (r0\<lparr> message := m \<rparr>)) d
       = map (\<lambda>(k, v). (k, map_option (with_message i m) v)) d"
proof (induction d)
  case Nil
  then show ?case by (simp add: obj_get_def)
next
  case (Cons p d)
  obtain k v where p: "p = (k, v)" by (cases p)
  have wf: "wf_dict review_id d" using Cons.prems(1) by (simp add: wf_dict_def)
  show ?case
  proof (cases "i = k")
    case True
    then have v: "v = Some r0" using Cons.prems(2) p by (simp add: obj_get_def)
    have "review_id r0 = i" using Cons.prems(1) p v True by (simp add: wf_dict_def)
    then have head: "with_message i m r0 = r0\<lparr> message := m \<rparr>" by (simp add: with_message_def)
    have "\<not> has_key i d" using Cons.prems(1) p True by (simp add: wf_dict_def has_key_def)
    then have "map (\<lambda>(k, v). (k, map_option (with_message i m) v)) d = d"
      using wf by (rule with_message_absent [rotated])
    then show ?thesis using p v True head by simp
  next
    case False
    then have get: "obj_get d i = Some r0" using Cons.prems(2) p by (simp add: obj_get_def)
    obtain e where v: "v = Some e" and e: "review_id e = k"
      using Cons.prems(1) p by (auto simp: wf_dict_def split: option.splits)
    have "with_message i m e = e" using e False by (simp add: with_message_def)
    then show ?thesis using Cons.IH [OF wf get] p v False by simp
  qed
qed

lemma find_with_message:
  "find (\<lambda>r. review_id r = k) (map (with_message i m) V)
     = map_option (with_message i m) (find (\<lambda>r. review_id r = k) V)"
  by (induction V) simp_all

lemma join_reviews_with_message:
  "join_reviews (map (with_message i m) V) ks = map (with_message i m) (join_reviews V ks)"
  by (induction ks) (auto simp: join_reviews_def filter_Boolean_def find_with_message)

lemma denormalizeIndicator_with_message:
  "denormalizeIndicator (map (with_message i m) V)
     = (\<lambda>ind. (denormalizeIndicator V ind)
         \<lparr> ind_reviewsList := map (with_message i m) (ind_reviewsList (denormalizeIndicator V ind)) \<rparr>)"
  by (rule ext) (simp add: denormalizeIndicator_def join_reviews_with_message)

lemma with_message_hit: "review_id r = i \<Longrightarrow> message (with_message i m r) = m"
  by (simp add: with_message_def)

lemma with_message_view:
  "\<forall>r\<in>set (map (with_message i m) V). review_id r = i \<longrightarrow> message r = m"
proof (intro ballI impI)
  fix r
  assume "r \<in> set (map (with_message i m) V)" and rid: "review_id r = i"
  then obtain r0 where r0: "r = with_message i m r0" by auto
  then have "review_id r0 = i" using rid by simp
  then show "message r = m" unfolding r0 by (rule with_message_hit)
qed

lemma with_message_present:
  "i \<in> review_id ` set V \<Longrightarrow> i \<in> review_id ` set (map (with_message i m) V)"
  by (simp add: image_image)

lemma updated_review_present:
  "\<forall>r\<in>set V. review_id r = i \<longrightarrow> message r = m \<Longrightarrow> i \<in> review_id ` set V \<Longrightarrow>
     \<exists>r\<in>set V. review_id r = i \<and> message r = m"
  by auto

lemma join_contains_updated:
  assumes "\<forall>r\<in>set V. review_id r = i \<longrightarrow> message r = m"
    and "i \<in> review_id ` set V" and "i \<in> set ks"
  shows "\<exists>r\<in>set (join_reviews V ks). review_id r = i \<and> message r = m"
proof -
  have "find (\<lambda>r. review_id r = i) V \<noteq> None"
    using assms(2) by (auto simp: find_None_iff)
  then obtain r where r: "find (\<lambda>r. review_id r = i) V = Some r" by blast
  then have "r \<in> set V" and rid: "review_id r = i"
    by (auto simp: find_Some_iff)
  then have "message r = m" using assms(1) by simp
  moreover have "r \<in> set (join_reviews V ks)"
  proof -
    have "i \<in> set (filter (\<lambda>k. k \<in> review_id ` set V) ks)"
      using assms(2,3) by simp
    then have "the (find (\<lambda>r. review_id r = i) V)
                 \<in> (\<lambda>k. the (find (\<lambda>r. review_id r = k) V))
                     ` set (filter (\<lambda>k. k \<in> review_id ` set V) ks)"
      by (rule imageI)
    then show ?thesis by (simp only: join_reviews_resolvable set_map r option.sel)
  qed
  ultimately show ?thesis using rid by blast
qed

lemma committed_reviews_wf:
  "wf_dict review_id (entities (reviewsState (RgetAllReviews R initialRootState)))"
  unfolding RgetAllReviews_slices
  by (rule addMany_wf) (simp add: initialRootState_def getInitialState_def wf_dict_def)

lemma updateReview_message_entities:
  assumes "wf_dict review_id (entities (reviewsState s))"
  shows "entities (reviewsState (dispatch s (updateReview i (message_change m))))
           = map (\<lambda>(k, v). (k, map_option (with_message i m) v)) (entities (reviewsState s))"
proof (cases "has_key i (entities (reviewsState s))")
  case False
  then show ?thesis
    using with_message_absent [OF assms False, of m] by (simp add: updateOne_def)
next
  case True
  then obtain v where "(i, v) \<in> set (entities (reviewsState s))"
    by (auto simp: has_key_def)
  then obtain r0 where mem: "(i, Some r0) \<in> set (entities (reviewsState s))"
    using assms by (auto simp: wf_dict_def list_all_iff split: option.splits)
  have "distinct (map fst (entities (reviewsState s)))" using assms by (simp add: wf_dict_def)
  then have "map_of (entities (reviewsState s)) i = Some (Some r0)"
    using mem by (rule map_of_is_SomeI)
  then have get: "obj_get (entities (reviewsState s)) i = Some r0"
    by (simp add: obj_get_def)
  have "assign_review r0 (message_change m) = r0\<lparr> message := m \<rparr>"
    by (simp add: assign_review_def message_change_def)
  then show ?thesis
    using True get obj_set_message [OF assms get, of m] by (simp add: updateOne_def)
qed

text \<open>
  C8. Let s be the store obtained by committing a normalized report to the empty store,
  and let i be an identifier of its top-level review list. After the single action
  update-one(i, message := m) on the review collection, the indicator and report
  collections are what they were; the reviews view is the old one with the message of
  review i replaced by m, and it does hold review i with the message m; every indicator
  view is the old one with the same replacement inside its review list; and the review
  list of each indicator view whose record has i in its review-id list holds review i with
  the message m.
\<close>

theorem update_propagates:
  assumes "i \<in> review_id ` set (reviewsList R)"
  shows
    "reviewsIndicators (dispatch (RgetAllReviews R initialRootState) (updateReview i (message_change m)))
       = reviewsIndicators (RgetAllReviews R initialRootState) \<and>
     reviewsReport (dispatch (RgetAllReviews R initialRootState) (updateReview i (message_change m)))
       = reviewsReport (RgetAllReviews R initialRootState) \<and>
     selectDenormalizedReviews
         (dispatch (RgetAllReviews R initialRootState) (updateReview i (message_change m)))
       = map (with_message i m) (selectDenormalizedReviews (RgetAllReviews R initialRootState)) \<and>
     selectDenormalizedReviewsIndicators
         (dispatch (RgetAllReviews R initialRootState) (updateReview i (message_change m)))
       = map (\<lambda>ind. ind\<lparr> ind_reviewsList := map (with_message i m) (ind_reviewsList ind) \<rparr>)
             (selectDenormalizedReviewsIndicators (RgetAllReviews R initialRootState)) \<and>
     (\<exists>r \<in> set (selectDenormalizedReviews
                  (dispatch (RgetAllReviews R initialRootState) (updateReview i (message_change m)))).
        review_id r = i \<and> message r = m) \<and>
     (\<forall>j < length (defined_values (entities (reviewsIndicators
                      (dispatch (RgetAllReviews R initialRootState)
                                (updateReview i (message_change m)))))).
        i \<in> set (sind_reviewIds
                   (defined_values (entities (reviewsIndicators
                      (dispatch (RgetAllReviews R initialRootState)
                                (updateReview i (message_change m))))) ! j)) \<longrightarrow>
        (\<exists>r \<in> set (ind_reviewsList
                     (selectDenormalizedReviewsIndicators
                        (dispatch (RgetAllReviews R initialRootState)
                                  (updateReview i (message_change m))) ! j)).
           review_id r = i \<and> message r = m))"
proof -
  let ?s = "RgetAllReviews R initialRootState"
  let ?s' = "dispatch ?s (updateReview i (message_change m))"
  let ?u = "with_message i m"
  have wf: "wf_dict review_id (entities (reviewsState ?s))" by (rule committed_reviews_wf)
  have other: "reviewsIndicators ?s' = reviewsIndicators ?s" "reviewsReport ?s' = reviewsReport ?s"
    by simp_all
  have rv: "selectDenormalizedReviews ?s' = map ?u (selectDenormalizedReviews ?s)"
    by (simp only: selectDenormalizedReviews_def selectReviewsEntities_def denormalizeReviews_def
        updateReview_message_entities [OF wf] defined_values_map_values)
  have iv: "selectDenormalizedReviewsIndicators ?s'
              = map (\<lambda>ind. ind\<lparr> ind_reviewsList := map ?u (ind_reviewsList ind) \<rparr>)
                    (selectDenormalizedReviewsIndicators ?s)"
    by (simp only: selectDenormalizedReviewsIndicators_def denormalizeReviewsIndicators_def
        selectReviewsIndicatorsEntities_def other rv denormalizeIndicator_with_message
        map_map comp_def)
  have keys: "set (map fst (entities (reviewsState ?s))) = review_id ` set (reviewsList R)"
    using addMany_keys [of getInitialState review_id "reviewsList R"]
    by (simp add: RgetAllReviews_slices initialRootState_def getInitialState_def)
  have ids_view: "review_id ` set (selectDenormalizedReviews ?s) = review_id ` set (reviewsList R)"
  proof -
    have "set (map review_id (selectDenormalizedReviews ?s)) = set (map fst (entities (reviewsState ?s)))"
      using defined_values_wf(2) [OF wf]
      by (simp add: selectDenormalizedReviews_def selectReviewsEntities_def denormalizeReviews_def
          set_own_properties)
    then show ?thesis using keys by simp
  qed
  have upd: "\<forall>r\<in>set (selectDenormalizedReviews ?s'). review_id r = i \<longrightarrow> message r = m"
    unfolding rv by (rule with_message_view)
  have "i \<in> review_id ` set (selectDenormalizedReviews ?s)"
    using assms by (simp only: ids_view)
  then have present: "i \<in> review_id ` set (selectDenormalizedReviews ?s')"
    unfolding rv by (rule with_message_present)
  have ex: "\<exists>r \<in> set (selectDenormalizedReviews ?s'). review_id r = i \<and> message r = m"
    using upd present by (rule updated_review_present)
  have ind: "\<exists>r \<in> set (ind_reviewsList (selectDenormalizedReviewsIndicators ?s' ! j)).
               review_id r = i \<and> message r = m"
    if j: "j < length (defined_values (entities (reviewsIndicators ?s')))"
      and ref: "i \<in> set (sind_reviewIds (defined_values (entities (reviewsIndicators ?s')) ! j))"
    for j
  proof -
    let ?V' = "selectDenormalizedReviews ?s'"
    let ?rec = "defined_values (entities (reviewsIndicators ?s')) ! j"
    have "selectDenormalizedReviewsIndicators ?s'
            = map (denormalizeIndicator ?V') (defined_values (entities (reviewsIndicators ?s')))"
      by (simp only: selectDenormalizedReviewsIndicators_def denormalizeReviewsIndicators_def
          selectReviewsIndicatorsEntities_def)
    then have "selectDenormalizedReviewsIndicators ?s' ! j = denormalizeIndicator ?V' ?rec"
      using j by (simp only: nth_map)
    then have list: "ind_reviewsList (selectDenormalizedReviewsIndicators ?s' ! j)
                       = join_reviews ?V' (sind_reviewIds ?rec)"
      by (simp only: denormalizeIndicator_def IReviewsIndicatorsEntity.simps)
    from upd present ref show ?thesis
      unfolding list by (rule join_contains_updated)
  qed
  show ?thesis
  proof (intro conjI allI impI)
    show "reviewsIndicators ?s' = reviewsIndicators ?s" by (rule other(1))
    show "reviewsReport ?s' = reviewsReport ?s" by (rule other(2))
    show "selectDenormalizedReviews ?s' = map ?u (selectDenormalizedReviews ?s)" by (rule rv)
    show "selectDenormalizedReviewsIndicators ?s'
              = map (\<lambda>ind. ind\<lparr> ind_reviewsList := map ?u (ind_reviewsList ind) \<rparr>)
                    (selectDenormalizedReviewsIndicators ?s)" by (rule iv)
    show "\<exists>r \<in> set (selectDenormalizedReviews ?s'). review_id r = i \<and> message r = m" by (rule ex)
  next
    fix j
    assume "j < length (defined_values (entities (reviewsIndicators ?s')))"
      and "i \<in> set (sind_reviewIds (defined_values (entities (reviewsIndicators ?s')) ! j))"
    then show "\<exists>r \<in> set (ind_reviewsList (selectDenormalizedReviewsIndicators ?s' ! j)).
               review_id r = i \<and> message r = m" by (rule ind)
  qed
qed

theorem update_propagates_witness:
  "(1::int) \<in> review_id ` set (reviewsList example_report) \<and>
   (0::nat) < length (defined_values (entities (reviewsIndicators
                (dispatch (RgetAllReviews example_report initialRootState)
                          (updateReview 1 (message_change ''Parfait'')))))) \<and>
   (1::int) \<in> set (sind_reviewIds
                (defined_values (entities (reviewsIndicators
                   (dispatch (RgetAllReviews example_report initialRootState)
                             (updateReview 1 (message_change ''Parfait''))))) ! 0)) \<and>
   map message (selectDenormalizedReviews
      (dispatch (RgetAllReviews example_report initialRootState)
                (updateReview 1 (message_change ''Parfait'')))) = [''Parfait'', ''Bien''] \<and>
   map (\<lambda>ind. map message (ind_reviewsList ind))
       (selectDenormalizedReviewsIndicators
          (dispatch (RgetAllReviews example_report initialRootState)
                    (updateReview 1 (message_change ''Parfait''))))
     = [ [''Parfait''], [''Bien''] ] \<and>
   (\<exists>r \<in> set (ind_reviewsList
                (selectDenormalizedReviewsIndicators
                   (dispatch (RgetAllReviews example_report initialRootState)
                             (updateReview 1 (message_change ''Parfait''))) ! 0)).
      review_id r = 1 \<and> message r = ''Parfait'')"
proof -
  have a: "(1::int) \<in> review_id ` set (reviewsList example_report)"
    by (simp add: example_report_def)
  have b: "(0::nat) < length (defined_values (entities (reviewsIndicators
                (dispatch (RgetAllReviews example_report initialRootState)
                          (updateReview 1 (message_change ''Parfait''))))))"
    by code_simp
  have c: "(1::int) \<in> set (sind_reviewIds
                (defined_values (entities (reviewsIndicators
                   (dispatch (RgetAllReviews example_report initialRootState)
                             (updateReview 1 (message_change ''Parfait''))))) ! 0))"
    by code_simp
  have d: "map message (map (with_message 1 ''Parfait'')
             (selectDenormalizedReviews (RgetAllReviews example_report initialRootState)))
           = [''Parfait'', ''Bien'']"
    by code_simp
  have e: "map (\<lambda>ind. map message (ind_reviewsList ind))
             (map (\<lambda>ind. ind\<lparr> ind_reviewsList := map (with_message 1 ''Parfait'') (ind_reviewsList ind) \<rparr>)
                  (selectDenormalizedReviewsIndicators (RgetAllReviews example_report initialRootState)))
           = [ [''Parfait''], [''Bien''] ]"
    by code_simp
  note inst = update_propagates [OF a, of "''Parfait''"]
  from inst have rv: "selectDenormalizedReviews
         (dispatch (RgetAllReviews example_report initialRootState) (updateReview 1 (message_change ''Parfait'')))
       = map (with_message 1 ''Parfait'') (selectDenormalizedReviews (RgetAllReviews example_report initialRootState))"
    by blast
  from inst have iv: "selectDenormalizedReviewsIndicators
         (dispatch (RgetAllReviews example_report initialRootState) (updateReview 1 (message_change ''Parfait'')))
       = map (\<lambda>ind. ind\<lparr> ind_reviewsList := map (with_message 1 ''Parfait'') (ind_reviewsList ind) \<rparr>)
             (selectDenormalizedReviewsIndicators (RgetAllReviews example_report initialRootState))"
    by blast
  from inst b c have ex: "\<exists>r \<in> set (ind_reviewsList
                (selectDenormalizedReviewsIndicators
                   (dispatch (RgetAllReviews example_report initialRootState)
                             (updateReview 1 (message_change ''Parfait''))) ! 0)).
      review_id r = 1 \<and> message r = ''Parfait''"
    by blast
  from d have d': "map message (selectDenormalizedReviews
      (dispatch (RgetAllReviews example_report initialRootState)
                (updateReview 1 (message_change ''Parfait'')))) = [''Parfait'', ''Bien'']"
    by (simp only: rv)
  from e have e': "map (\<lambda>ind. map message (ind_reviewsList ind))
       (selectDenormalizedReviewsIndicators
          (dispatch (RgetAllReviews example_report initialRootState)
                    (updateReview 1 (message_change ''Parfait''))))
     = [ [''Parfait''], [''Bien''] ]"
    by (simp only: iv)
  show ?thesis
    by (intro conjI) (rule a b c d' e' ex)+
qed

end
